theory Spec2Isabelle
  imports Complex_Main "HOL-Library.Sublist"
begin

section \<open>Python values used by the provider\<close>

text \<open>
  The exceptions the two modules can raise.  \<open>ValueError\<close> and \<open>KeyError\<close> come from
  \<open>int(...)\<close>, \<open>datetime\<close>, \<open>dateutil\<close> and dictionary indexing; \<open>ValidationError\<close> is
  pydantic's rejection of a field; \<open>EmptyDataError\<close> is raised by \<open>transform_data\<close>;
  \<open>TypeError\<close> is arithmetic on a value that is not a number.  \<open>UnsupportedFormat\<close> is
  not a Python exception: it marks a date text or a URL of a shape that \<open>isoparse\<close>
  and \<open>url_part4\<close> below do not describe.
\<close>

datatype error =
    ValueError
  | KeyError
  | IndexError
  | ValidationError
  | TypeError
  | EmptyDataError
  | UnsupportedFormat

text \<open>Strings are ASCII byte strings; tickers, interval tokens and URLs all are.\<close>

definition is_digit :: "char \<Rightarrow> bool" where
  "is_digit c = (48 \<le> (of_char c :: nat) \<and> (of_char c :: nat) \<le> 57)"

definition digit_val :: "char \<Rightarrow> nat" where
  "digit_val c = (of_char c :: nat) - 48"

definition digit_char :: "nat \<Rightarrow> char" where
  "digit_char d = ''0123456789'' ! d"

text \<open>
  The whitespace that \<open>int(...)\<close> skips at both ends of an ASCII text: tab to carriage
  return, and blank.
\<close>

definition is_space :: "char \<Rightarrow> bool" where
  "is_space c = (let n = (of_char c :: nat) in (9 \<le> n \<and> n \<le> 13) \<or> n = 32)"

definition strip :: "string \<Rightarrow> string" where
  "strip s = rev (dropWhile is_space (rev (dropWhile is_space s)))"

text \<open>
  The digit part of an integer literal as \<open>int(...)\<close> accepts it: at least one digit,
  single underscores allowed between digits only.  The flag says whether the previous
  character was a digit.  The result is the digits without the underscores.
\<close>

fun digits_us :: "bool \<Rightarrow> string \<Rightarrow> string option" where
  "digits_us prev [] = (if prev then Some [] else None)"
| "digits_us prev (c # cs) =
     (if is_digit c then map_option (Cons c) (digits_us True cs)
      else if c = CHR ''_'' \<and> prev then digits_us False cs
      else None)"

definition digits_value :: "string \<Rightarrow> int" where
  "digits_value ds = foldl (\<lambda>a c. 10 * a + int (digit_val c)) 0 ds"

text \<open>\<open>int(s)\<close> in base ten; \<open>None\<close> stands for the \<open>ValueError\<close>.\<close>

definition py_int :: "string \<Rightarrow> int option" where
  "py_int s =
     (case strip s of
        [] \<Rightarrow> None
      | c # cs \<Rightarrow>
          if c = CHR ''-'' then map_option (\<lambda>ds. - digits_value ds) (digits_us False cs)
          else if c = CHR ''+'' then map_option digits_value (digits_us False cs)
          else map_option digits_value (digits_us False (c # cs)))"

text \<open>\<open>str(n)\<close> for a natural number.\<close>

fun str_nat :: "nat \<Rightarrow> string" where
  "str_nat n = (if n < 10 then [digit_char n]
                else str_nat (n div 10) @ [digit_char (n mod 10)])"

declare str_nat.simps [simp del]

definition str_int :: "int \<Rightarrow> string" where
  "str_int i = (if i < 0 then CHR ''-'' # str_nat (nat (- i)) else str_nat (nat i))"

text \<open>\<open>str.upper\<close> on ASCII.\<close>

definition upper_char :: "char \<Rightarrow> char" where
  "upper_char c =
     (case map_of (zip ''abcdefghijklmnopqrstuvwxyz'' ''ABCDEFGHIJKLMNOPQRSTUVWXYZ'') c of
        None \<Rightarrow> c
      | Some u \<Rightarrow> u)"

definition upper :: "string \<Rightarrow> string" where
  "upper s = map upper_char s"

text \<open>
  \<open>s.replace(old, new)\<close> for a non-empty \<open>old\<close>: scan from the left, replace each
  occurrence and continue after it.  The counter is the number of characters of a
  matched occurrence still to skip.
\<close>

fun replace_from :: "nat \<Rightarrow> string \<Rightarrow> string \<Rightarrow> string \<Rightarrow> string" where
  "replace_from k old new [] = []"
| "replace_from (Suc k) old new (c # cs) = replace_from k old new cs"
| "replace_from 0 old new (c # cs) =
     (if prefix old (c # cs) then new @ replace_from (length old - 1) old new cs
      else c # replace_from 0 old new cs)"

definition replace :: "string \<Rightarrow> string \<Rightarrow> string \<Rightarrow> string" where
  "replace old new s = replace_from 0 old new s"

text \<open>\<open>s.split(sep)\<close> for a one-character separator: never empty.\<close>

fun split_on :: "char \<Rightarrow> string \<Rightarrow> string list" where
  "split_on sep [] = [[]]"
| "split_on sep (c # cs) =
     (if c = sep then [] # split_on sep cs
      else (case split_on sep cs of
              [] \<Rightarrow> [[c]]
            | w # ws \<Rightarrow> (c # w) # ws))"

section \<open>Calendar dates\<close>

record date =
  year :: int
  month :: int
  day :: int

definition is_leap :: "int \<Rightarrow> bool" where
  "is_leap y = (y mod 4 = 0 \<and> (y mod 100 \<noteq> 0 \<or> y mod 400 = 0))"

definition days_in_month :: "int \<Rightarrow> int \<Rightarrow> int" where
  "days_in_month y m =
     (if m = 2 then (if is_leap y then 29 else 28)
      else if m = 4 \<or> m = 6 \<or> m = 9 \<or> m = 11 then 30 else 31)"

text \<open>The range check of the \<open>date\<close> constructor (years 1 to 9999).\<close>

definition valid_date :: "date \<Rightarrow> bool" where
  "valid_date d =
     (1 \<le> year d \<and> year d \<le> 9999 \<and> 1 \<le> month d \<and> month d \<le> 12 \<and>
      1 \<le> day d \<and> day d \<le> days_in_month (year d) (month d))"

text \<open>
  \<open>d - relativedelta(years=n)\<close>: the year moves, the day is clipped to the length of
  the month in the new year, and the \<open>date\<close> constructor rejects a year below 1.
\<close>

definition minus_years :: "date \<Rightarrow> int \<Rightarrow> error + date" where
  "minus_years d n =
     (let y = year d - n
      in if y < 1 \<or> 9999 < y then Inl ValueError
         else Inr \<lparr>year = y, month = month d,
                   day = min (days_in_month y (month d)) (day d)\<rparr>)"

section \<open>The polygon query: \<open>PolygonCryptoHistoricalQueryParams\<close>\<close>

text \<open>
  The fields \<open>symbol\<close>, \<open>start_date\<close> and \<open>end_date\<close> are those of the standard query
  model (\<open>equity_historical.py\<close>); \<open>interval\<close>, \<open>sort\<close> and \<open>limit\<close> and the two private
  attributes are declared by the polygon class.  The private attributes start as
  \<open>None\<close>.
\<close>

record query =
  symbol :: string
  start_date :: "date option"
  end_date :: "date option"
  interval :: string
  sort_order :: string
  limit :: int
  multiplier :: "int option"
  timespan :: "string option"

definition intervals :: "(char \<times> string) list" where
  "intervals =
     [(CHR ''s'', ''second''), (CHR ''m'', ''minute''), (CHR ''h'', ''hour''),
      (CHR ''d'', ''day''), (CHR ''W'', ''week''), (CHR ''M'', ''month''),
      (CHR ''Q'', ''quarter''), (CHR ''Y'', ''year'')]"

text \<open>
  \<open>get_api_interval_params\<close>: \<open>int(interval[:-1])\<close> first, then
  \<open>intervals[interval[-1]]\<close>.  Neither private attribute is validated when assigned.
\<close>

definition get_api_interval_params :: "query \<Rightarrow> error + query" where
  "get_api_interval_params values =
     (case py_int (butlast (interval values)) of
        None \<Rightarrow> Inl ValueError
      | Some m \<Rightarrow>
          if interval values = [] then Inl IndexError
          else (case map_of intervals (last (interval values)) of
                  None \<Rightarrow> Inl KeyError
                | Some u \<Rightarrow> Inr (values\<lparr>multiplier := Some m, timespan := Some u\<rparr>)))"

section \<open>The query dictionary and \<open>transform_query\<close>\<close>

text \<open>
  The \<open>params\<close> dictionary of \<open>transform_query\<close>: a field is \<open>None\<close> when the key is
  absent (or, for the two dates, holds \<open>None\<close>: \<open>params.get\<close> does not tell the two
  apart).  Values have the types the query model declares.
\<close>

record params =
  p_symbol :: "string option"
  p_start_date :: "date option"
  p_end_date :: "date option"
  p_interval :: "string option"
  p_sort :: "string option"
  p_limit :: "int option"

text \<open>\<open>upper_symbol\<close>, the \<open>symbol\<close> validator of the standard query model.\<close>

definition upper_symbol :: "string \<Rightarrow> string" where
  "upper_symbol v = upper v"

text \<open>
  The constructor \<open>PolygonCryptoHistoricalQueryParams(**params)\<close>: field validation
  (\<open>symbol\<close> is required, \<open>sort\<close> is one of two literals, \<open>limit\<close> is a \<open>PositiveInt\<close>,
  defaults for \<open>interval\<close>, \<open>sort\<close> and \<open>limit\<close>), then the model validator.  pydantic
  reports a \<open>ValueError\<close> raised inside a validator as a \<open>ValidationError\<close>; any other
  exception leaves the constructor as it is.
\<close>

definition PolygonCryptoHistoricalQueryParams_init :: "params \<Rightarrow> error + query" where
  "PolygonCryptoHistoricalQueryParams_init p =
     (case p_symbol p of
        None \<Rightarrow> Inl ValidationError
      | Some v \<Rightarrow>
          let srt = (case p_sort p of None \<Rightarrow> ''desc'' | Some x \<Rightarrow> x);
              lim = (case p_limit p of None \<Rightarrow> 49999 | Some x \<Rightarrow> x)
          in if srt \<noteq> ''asc'' \<and> srt \<noteq> ''desc'' then Inl ValidationError
             else if lim \<le> 0 then Inl ValidationError
             else (case get_api_interval_params
                          \<lparr>symbol = upper_symbol v,
                           start_date = p_start_date p,
                           end_date = p_end_date p,
                           interval = (case p_interval p of None \<Rightarrow> ''1d'' | Some x \<Rightarrow> x),
                           sort_order = srt,
                           limit = lim,
                           multiplier = None,
                           timespan = None\<rparr> of
                     Inl ValueError \<Rightarrow> Inl ValidationError
                   | Inl e \<Rightarrow> Inl e
                   | Inr q \<Rightarrow> Inr q))"

text \<open>
  Dictionaries are objects: a store maps references to dictionaries, and
  \<open>transform_query\<close> receives the reference of the caller's dictionary.  The clock
  (\<open>datetime.now().date()\<close>) is the first argument.  \<open>transformed_params = params\<close>
  binds a second name to the same reference.
\<close>

type_synonym ref = nat
type_synonym store = "ref \<Rightarrow> params"

definition transform_query :: "date \<Rightarrow> ref \<Rightarrow> store \<Rightarrow> store \<times> (error + query)" where
  "transform_query now params h =
     (let transformed_params = params
      in case (if p_start_date (h params) = None
               then (case minus_years now 1 of
                       Inl e \<Rightarrow> Inl e
                     | Inr d \<Rightarrow> Inr (h(transformed_params :=
                                        (h transformed_params)\<lparr>p_start_date := Some d\<rparr>)))
               else Inr h) of
           Inl e \<Rightarrow> (h, Inl e)
         | Inr h1 \<Rightarrow>
             let h2 = (if p_end_date (h1 params) = None
                       then h1(transformed_params :=
                                 (h1 transformed_params)\<lparr>p_end_date := Some now\<rparr>)
                       else h1);
                 h3 = (case p_symbol (h2 params) of
                         None \<Rightarrow> h2
                       | Some s \<Rightarrow>
                           if s \<noteq> []
                           then h2(transformed_params :=
                                     (h2 transformed_params)
                                       \<lparr>p_symbol := Some (replace ''-'' [] s)\<rparr>)
                           else h2)
             in (h3, PolygonCryptoHistoricalQueryParams_init (h3 transformed_params)))"

text \<open>
  What the two steps do to a symbol: \<open>transform_query\<close> removes the dashes of a
  non-empty symbol, the validator uppercases.
\<close>

definition normalize_symbol :: "string \<Rightarrow> string" where
  "normalize_symbol s = upper_symbol (if s \<noteq> [] then replace ''-'' [] s else s)"

section \<open>Date-times, their text forms\<close>

record datetime =
  dt_date :: date
  hour :: int
  minute :: int
  second :: int
  microsecond :: int
  utcoffset :: "int option"

text \<open>
  \<open>_ord2ymd\<close> of the \<open>datetime\<close> module: the date of a proleptic Gregorian ordinal
  (day 1 is 1 January of year 1), by 400, 100, 4 and 1 year cycles, with its two
  tables of month lengths in a common year.
\<close>

definition days_in_month_common :: "int \<Rightarrow> int" where
  "days_in_month_common m =
     [0, 31, 28, 31, 30, 31, 30, 31, 31, 30, 31, 30, 31] ! nat m"

definition days_before_month :: "int \<Rightarrow> int" where
  "days_before_month m =
     [0, 0, 31, 59, 90, 120, 151, 181, 212, 243, 273, 304, 334] ! nat m"

definition ord2ymd :: "int \<Rightarrow> date" where
  "ord2ymd n =
     (let n0 = n - 1;
          n400 = n0 div 146097; r400 = n0 mod 146097;
          n100 = r400 div 36524; r100 = r400 mod 36524;
          n4 = r100 div 1461; r4 = r100 mod 1461;
          n1 = r4 div 365; r1 = r4 mod 365;
          y = n400 * 400 + 1 + n100 * 100 + n4 * 4 + n1
      in if n1 = 4 \<or> n100 = 4 then \<lparr>year = y - 1, month = 12, day = 31\<rparr>
         else
           let leapyear = (n1 = 3 \<and> (n4 \<noteq> 24 \<or> n100 = 3));
               m = (r1 + 50) div 32;
               preceding = days_before_month m + (if 2 < m \<and> leapyear then 1 else 0)
           in if r1 < preceding
              then let m' = m - 1;
                       preceding' = preceding
                         - (days_in_month_common m' + (if m' = 2 \<and> leapyear then 1 else 0))
                   in \<lparr>year = y, month = m', day = r1 - preceding' + 1\<rparr>
              else \<lparr>year = y, month = m, day = r1 - preceding + 1\<rparr>)"



text \<open>
  \<open>datetime.fromtimestamp(t / 1000, tz=timezone("UTC"))\<close> for an integer \<open>t\<close>: the
  division is taken exactly (the quotient of an in-range \<open>t\<close> by 1000 has the same
  whole seconds as a float), 1 January 1970 is ordinal 719163, and a year outside 1
  to 9999 is refused.
\<close>

definition utc_fromtimestamp_ms :: "int \<Rightarrow> error + datetime" where
  "utc_fromtimestamp_ms t =
     (let secs = t div 1000;
          ordinal = 719163 + secs div 86400;
          sod = secs mod 86400
      in if ordinal < 1 \<or> 3652059 < ordinal then Inl ValueError
         else Inr \<lparr>dt_date = ord2ymd ordinal,
                   hour = sod div 3600,
                   minute = sod mod 3600 div 60,
                   second = sod mod 60,
                   microsecond = t mod 1000 * 1000,
                   utcoffset = Some 0\<rparr>)"

definition zfill :: "nat \<Rightarrow> string \<Rightarrow> string" where
  "zfill w s = replicate (w - length s) CHR ''0'' @ s"

definition pad :: "nat \<Rightarrow> int \<Rightarrow> string" where
  "pad w i = zfill w (str_nat (nat i))"

text \<open>\<open>str(d)\<close> of a date, which is \<open>d.isoformat()\<close>.\<close>

definition isoformat :: "date \<Rightarrow> string" where
  "isoformat d = pad 4 (year d) @ ''-'' @ pad 2 (month d) @ ''-'' @ pad 2 (day d)"

text \<open>The \<open>%z\<close> directive: empty for a naive value, else sign, hours and minutes.\<close>

definition format_z :: "int option \<Rightarrow> string" where
  "format_z off =
     (case off of
        None \<Rightarrow> []
      | Some m \<Rightarrow> (if m < 0 then ''-'' else ''+'') @ pad 2 (\<bar>m\<bar> div 60) @ pad 2 (\<bar>m\<bar> mod 60))"

text \<open>
  \<open>v.strftime("%Y-%m-%dT%H:%M:%S%z")\<close>, as the C library of Linux formats it: \<open>%Y\<close> is
  the year without padding (a year below 1000 has fewer than four digits), the other
  fields have two digits.
\<close>

definition strftime_iso :: "datetime \<Rightarrow> string" where
  "strftime_iso v =
     str_nat (nat (year (dt_date v))) @ ''-'' @ pad 2 (month (dt_date v)) @ ''-''
       @ pad 2 (day (dt_date v)) @ ''T'' @ pad 2 (hour v) @ '':'' @ pad 2 (minute v) @ '':''
       @ pad 2 (second v) @ format_z (utcoffset v)"

section \<open>Rows, pages and the transport\<close>

text \<open>
  A row of the vendor's \<open>results\<close>: the key \<open>t\<close> holds the epoch in milliseconds when
  it arrives, and a date or a text once the callback has rewritten it.  The other
  keys are numbers that may be absent; \<open>symbol\<close> is added by the callback.
\<close>

datatype tvalue = TMillis int | TDate date | TText string

record row =
  key_t :: tvalue
  key_o :: "rat option"
  key_h :: "rat option"
  key_l :: "rat option"
  key_c :: "rat option"
  key_v :: "rat option"
  key_vw :: "rat option"
  key_n :: "int option"
  key_symbol :: "string option"

text \<open>A decoded response body: \<open>data.get("next_url")\<close> and \<open>data.get("results")\<close>.\<close>

record page =
  next_url :: "string option"
  results :: "row list option"

definition results_of :: "page \<Rightarrow> row list" where
  "results_of data = (case results data of None \<Rightarrow> [] | Some rs \<Rightarrow> rs)"

text \<open>
  The transport: a vendor state, and a function that answers a GET of a URL with a
  decoded body and the next vendor state.  The requests issued and the warnings
  emitted are recorded beside it: a warning is a text of the callback, or the URL
  and the exception of a task that failed.
\<close>

datatype warning = Warned string | TaskFailed string error

record 's net =
  srv :: 's
  requests :: "string list"
  warnings :: "warning list"

type_synonym 's transport = "'s \<Rightarrow> string \<Rightarrow> page \<times> 's"

definition fstr :: "string option \<Rightarrow> string" where
  "fstr v = (case v of None \<Rightarrow> ''None'' | Some s \<Rightarrow> s)"

text \<open>
  The loop \<open>while next_url:\<close> of the callback.  Nothing bounds the number of pages,
  so the loop is a partial function: \<open>None\<close> is a run that never ends.
\<close>

partial_function (option) follow_pages ::
  "'s transport \<Rightarrow> string \<Rightarrow> string option \<Rightarrow> row list \<Rightarrow> 's net \<Rightarrow> (row list \<times> 's net) option"
where
  "follow_pages get api_key nxt rows st =
     (case nxt of
        None \<Rightarrow> Some (rows, st)
      | Some u \<Rightarrow>
          if u = [] then Some (rows, st)
          else
            let url = u @ ''&apiKey='' @ api_key;
                data = fst (get (srv st) url);
                st' = st\<lparr>srv := snd (get (srv st) url), requests := requests st @ [url]\<rparr>
            in follow_pages get api_key (next_url data) (rows @ results_of data) st')"

text \<open>The body of \<open>for r in results\<close>, for one row.\<close>

definition process_row :: "query \<Rightarrow> string \<Rightarrow> row \<Rightarrow> error + row" where
  "process_row q tick r =
     (case key_t r of
        TMillis t \<Rightarrow>
          (case utc_fromtimestamp_ms t of
             Inl e \<Rightarrow> Inl e
           | Inr v \<Rightarrow>
               let r1 = (if timespan q \<notin> set [Some ''second'', Some ''minute'', Some ''hour'']
                         then r\<lparr>key_t := TDate (dt_date v)\<rparr>
                         else r\<lparr>key_t := TText (strftime_iso v)\<rparr>)
               in Inr (if CHR '','' \<in> set (symbol q)
                       then r1\<lparr>key_symbol := Some (replace ''X:'' [] tick)\<rparr>
                       else r1))
      | _ \<Rightarrow> Inl TypeError)"

fun process_rows :: "query \<Rightarrow> string \<Rightarrow> row list \<Rightarrow> error + row list" where
  "process_rows q tick [] = Inr []"
| "process_rows q tick (r # rs) =
     (case process_row q tick r of
        Inl e \<Rightarrow> Inl e
      | Inr r' \<Rightarrow> (case process_rows q tick rs of
                    Inl e \<Rightarrow> Inl e
                  | Inr rs' \<Rightarrow> Inr (r' # rs')))"

text \<open>
  \<open>response.url.parts[4]\<close> for the URL of a request to the vendor,
  \<open>https://api.polygon.io/\<close> and a path: the path ends at the query string or at the
  fragment, is split at the slashes, and each part is percent-decoded; the parts are
  \<open>/\<close>, \<open>v2\<close>, \<open>aggs\<close>, \<open>ticker\<close> and then the ticker.  The URL library does more
  to some paths: it resolves the parts \<open>.\<close> and \<open>..\<close>, drops tabs and line ends, and
  decodes an escape above 127 into a character outside ASCII.  Such URLs, and the
  URLs of another origin, are not described here and answered \<open>UnsupportedFormat\<close>.
\<close>

definition hex_val :: "char \<Rightarrow> nat option" where
  "hex_val c =
     map_of (zip ''0123456789abcdefABCDEF''
               [0, 1, 2, 3, 4, 5, 6, 7, 8, 9, 10, 11, 12, 13, 14, 15, 10, 11, 12, 13, 14, 15]) c"

fun unquote :: "string \<Rightarrow> string" where
  "unquote (c # a # b # cs) =
     (if c = CHR ''%''
      then (case (hex_val a, hex_val b) of
              (Some x, Some y) \<Rightarrow>
                if 16 * x + y < 128 then char_of (16 * x + y) # unquote cs
                else c # unquote (a # b # cs)
            | _ \<Rightarrow> c # unquote (a # b # cs))
      else c # unquote (a # b # cs))"
| "unquote cs = cs"

text \<open>Whether a part holds an escape above 127.\<close>

fun high_escape :: "string \<Rightarrow> bool" where
  "high_escape (c # a # b # cs) =
     (if c = CHR ''%''
      then (case (hex_val a, hex_val b) of
              (Some x, Some y) \<Rightarrow> 128 \<le> 16 * x + y \<or> high_escape cs
            | _ \<Rightarrow> high_escape (a # b # cs))
      else high_escape (a # b # cs))"
| "high_escape cs = False"

text \<open>The parts of the path as they are written, after the scheme and the host.\<close>

definition url_segments :: "string \<Rightarrow> string list" where
  "url_segments url =
     drop 3 (split_on CHR ''/'' (takeWhile (\<lambda>c. c \<noteq> CHR ''?'' \<and> c \<noteq> CHR ''#'') url))"

definition url_supported :: "string \<Rightarrow> bool" where
  "url_supported url =
     (take 23 url = ''https://api.polygon.io/'' \<and>
      list_all (\<lambda>seg. list_all (\<lambda>c. (of_char c :: nat) < 128
                                     \<and> c \<notin> set [CHR 0x09, CHR 0x0A, CHR 0x0D]) seg
                       \<and> \<not> high_escape seg
                       \<and> unquote seg \<notin> set [''.'', ''..''])
               (url_segments url))"

definition url_parts :: "string \<Rightarrow> string list" where
  "url_parts url = ''/'' # map unquote (url_segments url)"

definition url_part4 :: "string \<Rightarrow> error + string" where
  "url_part4 url =
     (if \<not> url_supported url then Inl UnsupportedFormat
      else if 4 < length (url_parts url) then Inr (url_parts url ! 4)
      else Inl IndexError)"

definition callback ::
  "'s transport \<Rightarrow> string option \<Rightarrow> query \<Rightarrow> string \<Rightarrow> page \<Rightarrow> 's net
     \<Rightarrow> ((error + row list) \<times> 's net) option" where
  "callback get api_key q url data st =
     (case url_part4 url of
        Inl e \<Rightarrow> Some (Inl e, st)
      | Inr tick \<Rightarrow>
          (case follow_pages get (fstr api_key) (next_url data) (results_of data) st of
             None \<Rightarrow> None
           | Some (rows, st') \<Rightarrow>
               (case process_rows q tick rows of
                  Inl e \<Rightarrow> Some (Inl e, st')
                | Inr rows' \<Rightarrow>
                    Some (Inr rows',
                          if rows' = []
                          then st'\<lparr>warnings := warnings st'
                                   @ [Warned (''Symbol Error: No data found for ''
                                                @ replace ''X:'' [] tick)]\<rparr>
                          else st'))))"

text \<open>
  Modelled from the spec: \<open>amake_requests\<close> (the HTTP helper, not among the sources)
  runs one task per URL: it performs the request, hands the decoded body to the
  callback and collects the callbacks' rows into one sequence.  A task that fails
  is a partial failure: it contributes no rows, a warning is emitted, and the tasks
  of the other URLs go on.  The tasks are taken one after the other, in the order of
  the URLs; a task that never ends keeps the whole call from returning.
\<close>

fun amake_requests ::
  "'s transport \<Rightarrow> (string \<Rightarrow> page \<Rightarrow> 's net \<Rightarrow> ((error + row list) \<times> 's net) option)
     \<Rightarrow> string list \<Rightarrow> 's net \<Rightarrow> (row list \<times> 's net) option" where
  "amake_requests get cb [] st = Some ([], st)"
| "amake_requests get cb (url # urls) st =
     (let data = fst (get (srv st) url);
          st1 = st\<lparr>srv := snd (get (srv st) url), requests := requests st @ [url]\<rparr>
      in case cb url data st1 of
           None \<Rightarrow> None
         | Some (Inl e, st2) \<Rightarrow>
             (case amake_requests get cb urls
                     (st2\<lparr>warnings := warnings st2 @ [TaskFailed url e]\<rparr>) of
                None \<Rightarrow> None
              | Some (rest, st3) \<Rightarrow> Some (rest, st3))
         | Some (Inr rows, st2) \<Rightarrow>
             (case amake_requests get cb urls st2 of
                None \<Rightarrow> None
              | Some (rest, st3) \<Rightarrow> Some (rows @ rest, st3)))"

text \<open>\<open>credentials.get("polygon_api_key") if credentials else ""\<close>.\<close>

definition get_api_key :: "(string \<times> string) list option \<Rightarrow> string option" where
  "get_api_key credentials =
     (case credentials of
        None \<Rightarrow> Some []
      | Some c \<Rightarrow> if c = [] then Some [] else map_of c ''polygon_api_key'')"

definition request_url :: "query \<Rightarrow> string option \<Rightarrow> string \<Rightarrow> string" where
  "request_url q api_key tick =
     ''https://api.polygon.io/v2/aggs/ticker/'' @ ''X:'' @ upper tick
       @ ''/range/'' @ fstr (map_option str_int (multiplier q))
       @ ''/'' @ fstr (timespan q)
       @ ''/'' @ fstr (map_option isoformat (start_date q))
       @ ''/'' @ fstr (map_option isoformat (end_date q))
       @ ''?'' @ ''&sort='' @ sort_order q @ ''&limit='' @ str_int (limit q)
       @ ''&apiKey='' @ fstr api_key"

definition aextract_data ::
  "'s transport \<Rightarrow> query \<Rightarrow> (string \<times> string) list option \<Rightarrow> 's net
     \<Rightarrow> (row list \<times> 's net) option" where
  "aextract_data get q credentials st =
     (let api_key = get_api_key credentials;
          urls = map (request_url q api_key) (split_on CHR '','' (symbol q))
      in amake_requests get (callback get api_key q) urls st)"

section \<open>The canonical record and \<open>transform_data\<close>\<close>

text \<open>
  \<open>parser.isoparse\<close> of \<open>dateutil\<close>, on the shapes this provider hands to it: a
  calendar date \<open>YYYY-MM-DD\<close>, alone or followed by one separator character, a time
  \<open>HH:MM:SS\<close> and an offset that is empty, \<open>Z\<close>, \<open>+HHMM\<close> or \<open>+HH:MM\<close> (either sign).
  A well-shaped text with a field out of range is a \<open>ValueError\<close>; the other ISO
  shapes of the library are not described here and answered \<open>UnsupportedFormat\<close>.
\<close>

definition all_digits :: "string \<Rightarrow> bool" where
  "all_digits s = (s \<noteq> [] \<and> list_all is_digit s)"

definition parse_isodate :: "string \<Rightarrow> error + date" where
  "parse_isodate s =
     (if length s = 10 \<and> all_digits (take 4 s) \<and> s ! 4 = CHR ''-''
         \<and> all_digits (take 2 (drop 5 s)) \<and> s ! 7 = CHR ''-'' \<and> all_digits (drop 8 s)
      then (let d = \<lparr>year = digits_value (take 4 s),
                      month = digits_value (take 2 (drop 5 s)),
                      day = digits_value (drop 8 s)\<rparr>
            in if valid_date d then Inr d else Inl ValueError)
      else Inl UnsupportedFormat)"

definition parse_isotime :: "string \<Rightarrow> error + (int \<times> int \<times> int)" where
  "parse_isotime s =
     (if length s = 8 \<and> all_digits (take 2 s) \<and> s ! 2 = CHR '':''
         \<and> all_digits (take 2 (drop 3 s)) \<and> s ! 5 = CHR '':'' \<and> all_digits (drop 6 s)
      then (let hh = digits_value (take 2 s);
                mm = digits_value (take 2 (drop 3 s));
                ss = digits_value (drop 6 s)
            in if hh = 24 then Inl UnsupportedFormat
               else if 24 < hh \<or> 59 < mm \<or> 59 < ss then Inl ValueError
               else Inr (hh, mm, ss))
      else Inl UnsupportedFormat)"

definition parse_offset :: "string \<Rightarrow> error + int option" where
  "parse_offset s =
     (if s = [] then Inr None
      else if s = ''Z'' then Inr (Some 0)
      else if (hd s = CHR ''+'' \<or> hd s = CHR ''-'')
              \<and> ((length s = 5 \<and> all_digits (tl s))
                  \<or> (length s = 6 \<and> all_digits (take 2 (tl s)) \<and> s ! 3 = CHR '':''
                      \<and> all_digits (drop 4 s)))
      then (let hh = digits_value (take 2 (tl s));
                mm = digits_value (drop (length s - 2) s)
            in if 23 < hh \<or> 59 < mm then Inl ValueError
               else Inr (Some ((if hd s = CHR ''-'' then - 1 else 1) * (hh * 60 + mm))))
      else Inl UnsupportedFormat)"

definition isoparse :: "string \<Rightarrow> error + datetime" where
  "isoparse s =
     (case parse_isodate (take 10 s) of
        Inl e \<Rightarrow> Inl e
      | Inr d \<Rightarrow>
          if length s = 10
          then Inr \<lparr>dt_date = d, hour = 0, minute = 0, second = 0, microsecond = 0,
                    utcoffset = None\<rparr>
          else (case parse_isotime (take 8 (drop 11 s)) of
                  Inl e \<Rightarrow> Inl e
                | Inr (hh, mm, ss) \<Rightarrow>
                    (case parse_offset (drop 19 s) of
                       Inl e \<Rightarrow> Inl e
                     | Inr off \<Rightarrow>
                         Inr \<lparr>dt_date = d, hour = hh, minute = mm, second = ss,
                              microsecond = 0, utcoffset = off\<rparr>)))"

text \<open>\<open>str(v)\<close> of the value under \<open>t\<close>.\<close>

definition py_str :: "tvalue \<Rightarrow> string" where
  "py_str v = (case v of TMillis i \<Rightarrow> str_int i | TDate d \<Rightarrow> isoformat d | TText s \<Rightarrow> s)"

text \<open>The \<open>date\<close> field: \<open>Union[date, datetime]\<close>.\<close>

datatype dateval = DateOnly date | DateTime datetime

text \<open>\<open>date_validate\<close> of the standard data model.\<close>

definition date_validate :: "tvalue \<Rightarrow> error + dateval" where
  "date_validate v =
     (case isoparse (py_str v) of
        Inl e \<Rightarrow> Inl e
      | Inr v' \<Rightarrow>
          if hour v' = 0 \<and> minute v' = 0 then Inr (DateOnly (dt_date v'))
          else Inr (DateTime v'))"

text \<open>
  The canonical record: prices, volume, weighted price, the trade count of the
  polygon class, and the symbol of a multi-symbol query.
\<close>

record data =
  d_date :: dateval
  d_open :: rat
  d_high :: rat
  d_low :: rat
  d_close :: rat
  d_volume :: "rat option"
  d_vwap :: "rat option"
  d_transactions :: "int option"
  d_symbol :: "string option"

text \<open>
  Modelled from the spec: \<open>PolygonCryptoHistoricalData.model_validate(d)\<close>.  The base
  classes of the record (\<open>CryptoHistoricalData\<close>, \<open>Data\<close>) are not among the sources;
  the record they declare is the canonical one of the specification: a date that is
  date-only or a full date-time, four required prices, an optional volume that is
  not negative, an optional weighted price.  The polygon class, which is among the
  sources, gives the aliases \<open>t\<close>, \<open>o\<close>, \<open>h\<close>, \<open>l\<close>, \<open>c\<close>, \<open>v\<close>, \<open>vw\<close> and \<open>n\<close> and
  declares \<open>transactions\<close> an optional \<open>PositiveInt\<close>.  The date goes through
  \<open>date_validate\<close>, the validator of the standard data model that is among the
  sources; its \<open>ValueError\<close> is reported as a \<open>ValidationError\<close>.
\<close>

definition model_validate :: "row \<Rightarrow> error + data" where
  "model_validate d =
     (case date_validate (key_t d) of
        Inl ValueError \<Rightarrow> Inl ValidationError
      | Inl e \<Rightarrow> Inl e
      | Inr dv \<Rightarrow>
          (case (key_o d, key_h d, key_l d, key_c d) of
             (Some op, Some hi, Some lo, Some cl) \<Rightarrow>
               if (case key_v d of None \<Rightarrow> False | Some x \<Rightarrow> x < 0) then Inl ValidationError
               else if (case key_n d of None \<Rightarrow> False | Some k \<Rightarrow> k \<le> 0)
               then Inl ValidationError
               else Inr \<lparr>d_date = dv, d_open = op, d_high = hi, d_low = lo, d_close = cl,
                         d_volume = key_v d, d_vwap = key_vw d,
                         d_transactions = key_n d, d_symbol = key_symbol d\<rparr>
           | _ \<Rightarrow> Inl ValidationError))"

text \<open>The list comprehension of \<open>transform_data\<close>: the first failing row ends it.\<close>

fun validate_all :: "row list \<Rightarrow> error + data list" where
  "validate_all [] = Inr []"
| "validate_all (d # ds) =
     (case model_validate d of
        Inl e \<Rightarrow> Inl e
      | Inr x \<Rightarrow> (case validate_all ds of
                   Inl e \<Rightarrow> Inl e
                 | Inr xs \<Rightarrow> Inr (x # xs)))"

definition transform_data :: "query \<Rightarrow> row list \<Rightarrow> error + data list" where
  "transform_data q rows = (if rows = [] then Inl EmptyDataError else validate_all rows)"

text \<open>
  Modelled from the spec: the fetcher's entry point (the \<open>Fetcher\<close> base class is not
  among the sources) composes the three stages in a fixed order, query normalization,
  extraction, transformation, once per request.
\<close>

definition fetch_data ::
  "'s transport \<Rightarrow> date \<Rightarrow> ref \<Rightarrow> store \<Rightarrow> (string \<times> string) list option \<Rightarrow> 's net
     \<Rightarrow> ((error + data list) \<times> store \<times> 's net) option" where
  "fetch_data get now params h credentials st =
     (case transform_query now params h of
        (h', Inl e) \<Rightarrow> Some (Inl e, h', st)
      | (h', Inr q) \<Rightarrow>
          (case aextract_data get q credentials st of
             None \<Rightarrow> None
           | Some (rows, st') \<Rightarrow> Some (transform_data q rows, h', st')))"

section \<open>Vendor behaviours\<close>

text \<open>
  What a vendor serves after a response: \<open>follows get key s nxt ps\<close> says that, from
  the vendor state \<open>s\<close> and with the continuation \<open>nxt\<close> of the response just read, the
  further responses are exactly \<open>ps\<close>, each but the last carrying a continuation.
\<close>

fun follows :: "'s transport \<Rightarrow> string \<Rightarrow> 's \<Rightarrow> string option \<Rightarrow> page list \<Rightarrow> bool" where
  "follows get key s nxt [] = (nxt = None \<or> nxt = Some [])"
| "follows get key s nxt (p # ps) =
     (case nxt of
        None \<Rightarrow> False
      | Some u \<Rightarrow>
          u \<noteq> [] \<and> fst (get s (u @ ''&apiKey='' @ key)) = p
            \<and> follows get key (snd (get s (u @ ''&apiKey='' @ key))) (next_url p) ps)"

text \<open>A vendor that replays a recorded sequence of responses, whatever the URL.\<close>

definition replay :: "page list transport" where
  "replay s url = (case s of [] \<Rightarrow> (\<lparr>next_url = None, results = None\<rparr>, [])
                   | p # ps \<Rightarrow> (p, ps))"

section \<open>Properties\<close>

lemma is_digit_digit_char: "d < 10 \<Longrightarrow> is_digit (digit_char d)"
proof -
  assume "d < 10"
  then have "d \<in> {0, 1, 2, 3, 4, 5, 6, 7, 8, 9}" by auto
  then show ?thesis by (auto simp: is_digit_def digit_char_def)
qed

lemma digit_val_digit_char: "d < 10 \<Longrightarrow> digit_val (digit_char d) = d"
proof -
  assume "d < 10"
  then have "d \<in> {0, 1, 2, 3, 4, 5, 6, 7, 8, 9}" by auto
  then show ?thesis by (auto simp: digit_val_def digit_char_def)
qed

subsection \<open>Integer texts\<close>

lemma digits_us_all_digits:
  "(\<forall>c \<in> set ds. is_digit c) \<Longrightarrow> ds \<noteq> [] \<or> prev \<Longrightarrow> digits_us prev ds = Some ds"
  by (induction ds arbitrary: prev) auto

lemma str_nat_digits: "\<forall>c \<in> set (str_nat n). is_digit c"
proof (induction n rule: str_nat.induct)
  case (1 n)
  show ?case
  proof (cases "n < 10")
    case True
    then show ?thesis by (subst str_nat.simps) (simp add: is_digit_digit_char)
  next
    case False
    with 1 show ?thesis by (subst str_nat.simps) (simp add: is_digit_digit_char)
  qed
qed

lemma str_nat_nonempty: "str_nat n \<noteq> []"
  by (subst str_nat.simps) simp

lemma digits_value_snoc:
  "digits_value (ds @ [c]) = 10 * digits_value ds + int (digit_val c)"
  by (simp add: digits_value_def)

lemma digits_value_str_nat: "digits_value (str_nat n) = int n"
proof (induction n rule: str_nat.induct)
  case (1 n)
  show ?case
  proof (cases "n < 10")
    case True
    then show ?thesis
      by (subst str_nat.simps) (simp add: digits_value_def digit_val_digit_char)
  next
    case False
    have split: "10 * int (n div 10) + int (n mod 10) = int n" by presburger
    from False 1 have "digits_value (str_nat (n div 10)) = int (n div 10)" by simp
    with False split show ?thesis
      by (subst str_nat.simps) (simp add: digits_value_snoc digit_val_digit_char)
  qed
qed

lemma digit_not_space: "is_digit c \<Longrightarrow> \<not> is_space c"
  by (auto simp: is_digit_def is_space_def Let_def)

lemma strip_digits:
  assumes "\<forall>c \<in> set ds. is_digit c"
  shows "strip ds = ds"
proof (cases ds rule: rev_cases)
  case Nil
  then show ?thesis by (simp add: strip_def)
next
  case (snoc ys y)
  show ?thesis
  proof (cases ds)
    case Nil
    with snoc show ?thesis by simp
  next
    case (Cons x xs)
    from assms Cons have "\<not> is_space x" by (simp add: digit_not_space)
    then have lead: "dropWhile is_space ds = ds" using Cons by simp
    from assms snoc have "\<not> is_space y" by (simp add: digit_not_space)
    then have trail: "dropWhile is_space (rev ds) = rev ds" using snoc by simp
    show ?thesis by (simp add: strip_def lead trail)
  qed
qed

lemma digit_not_sign: "is_digit c \<Longrightarrow> c \<noteq> CHR ''-'' \<and> c \<noteq> CHR ''+''"
  by (auto simp: is_digit_def)

lemma py_int_digits:
  assumes "\<forall>c \<in> set ds. is_digit c" and "ds \<noteq> []"
  shows "py_int ds = Some (digits_value ds)"
proof -
  obtain c cs where ds: "ds = c # cs" using assms(2) by (cases ds) auto
  have "is_digit c" using assms(1) ds by simp
  then have "c \<noteq> CHR ''-''" "c \<noteq> CHR ''+''" using digit_not_sign by auto
  moreover have "digits_us False (c # cs) = Some (c # cs)"
    using digits_us_all_digits[of ds False] assms ds by simp
  ultimately show ?thesis
    using strip_digits[OF assms(1)] ds by (simp add: py_int_def)
qed

lemma py_int_str_nat: "py_int (str_nat n) = Some (int n)"
  using py_int_digits[OF str_nat_digits str_nat_nonempty] digits_value_str_nat by simp

text \<open>
  A token made of the decimal text of \<open>n\<close> and a unit letter of the table is parsed
  to \<open>n\<close> and the unit's name.
\<close>

lemma get_api_interval_params_valid:
  assumes "map_of intervals u = Some name"
  shows "get_api_interval_params (q\<lparr>interval := str_nat n @ [u]\<rparr>) =
           Inr (q\<lparr>interval := str_nat n @ [u], multiplier := Some (int n),
                   timespan := Some name\<rparr>)"
  using assms by (simp add: get_api_interval_params_def py_int_str_nat)

text \<open>A unit letter outside the table is a \<open>KeyError\<close>, whatever the digits.\<close>

lemma get_api_interval_params_unknown_unit:
  assumes "map_of intervals u = None"
  shows "get_api_interval_params (q\<lparr>interval := str_nat n @ [u]\<rparr>) = Inl KeyError"
  using assms by (simp add: get_api_interval_params_def py_int_str_nat)

text \<open>A token with no digits before its last character is a \<open>ValueError\<close>.\<close>

lemma get_api_interval_params_no_digits:
  "get_api_interval_params (q\<lparr>interval := [u]\<rparr>) = Inl ValueError"
  "get_api_interval_params (q\<lparr>interval := []\<rparr>) = Inl ValueError"
  by (simp_all add: get_api_interval_params_def py_int_def strip_def)

text \<open>
  C1 (the interval token).  The digits go through \<open>int(...)\<close> and the result is stored
  in the private attribute \<open>_multiplier\<close>, which is declared \<open>PositiveInt\<close> but never
  validated: the tokens \<open>0d\<close> and \<open>-5d\<close> are accepted, with the multipliers 0 and -5,
  where the specification asks for a failure.
\<close>

theorem get_api_interval_params_nonpositive_accepted:
  "get_api_interval_params (q\<lparr>interval := ''0d''\<rparr>) =
     Inr (q\<lparr>interval := ''0d'', multiplier := Some 0, timespan := Some ''day''\<rparr>) \<and>
   get_api_interval_params (q\<lparr>interval := ''-5d''\<rparr>) =
     Inr (q\<lparr>interval := ''-5d'', multiplier := Some (- 5), timespan := Some ''day''\<rparr>) \<and>
   PolygonCryptoHistoricalQueryParams_init
     \<lparr>p_symbol = Some ''BTCUSD'', p_start_date = None, p_end_date = None,
      p_interval = Some ''0d'', p_sort = None, p_limit = None\<rparr> =
     Inr \<lparr>symbol = ''BTCUSD'', start_date = None, end_date = None, interval = ''0d'',
          sort_order = ''desc'', limit = 49999, multiplier = Some 0,
          timespan = Some ''day''\<rparr>"
  by (simp add: get_api_interval_params_def PolygonCryptoHistoricalQueryParams_init_def
      py_int_def strip_def is_space_def is_digit_def digits_value_def digit_val_def
      intervals_def upper_symbol_def upper_def upper_char_def)

subsection \<open>Symbols\<close>

lemma replace_from_single:
  "replace_from 0 [c] [] s = filter (\<lambda>x. x \<noteq> c) s"
  by (induction s) auto

lemma replace_dash: "replace ''-'' [] s = filter (\<lambda>x. x \<noteq> CHR ''-'') s"
  by (simp add: replace_def replace_from_single)

lemma upper_char_idem: "upper_char (upper_char c) = upper_char c"
  by (auto simp: upper_char_def split: if_splits)

lemma upper_char_dash: "upper_char c = CHR ''-'' \<longleftrightarrow> c = CHR ''-''"
  by (auto simp: upper_char_def split: if_splits)

lemma upper_filter_dash:
  "filter (\<lambda>x. x \<noteq> CHR ''-'') (upper s) = upper (filter (\<lambda>x. x \<noteq> CHR ''-'') s)"
  by (induction s) (auto simp: upper_def upper_char_dash)

lemma upper_idem: "upper (upper s) = upper s"
  by (simp add: upper_def upper_char_idem)

lemma normalize_symbol_eq: "normalize_symbol s = upper (filter (\<lambda>x. x \<noteq> CHR ''-'') s)"
  by (simp add: normalize_symbol_def upper_symbol_def replace_dash)

text \<open>
  C9 (symbol normalization is idempotent).  An uppercase symbol without dashes is
  left as it is, and normalizing twice is normalizing once.
\<close>

theorem symbol_normalization_idempotent:
  "(upper s = s \<and> CHR ''-'' \<notin> set s \<longrightarrow> normalize_symbol s = s) \<and>
   normalize_symbol (normalize_symbol s) = normalize_symbol s"
proof
  show "upper s = s \<and> CHR ''-'' \<notin> set s \<longrightarrow> normalize_symbol s = s"
  proof
    assume a: "upper s = s \<and> CHR ''-'' \<notin> set s"
    then have "filter (\<lambda>x. x \<noteq> CHR ''-'') s = s" by (auto simp: filter_id_conv)
    with a show "normalize_symbol s = s" by (simp add: normalize_symbol_eq)
  qed
next
  show "normalize_symbol (normalize_symbol s) = normalize_symbol s"
    by (simp add: normalize_symbol_eq upper_filter_dash upper_idem)
qed

theorem symbol_normalization_idempotent_witness:
  "upper ''BTCUSD'' = ''BTCUSD'' \<and> CHR ''-'' \<notin> set ''BTCUSD'' \<and>
   normalize_symbol ''BTCUSD'' = ''BTCUSD'' \<and>
   normalize_symbol (normalize_symbol ''BTCUSD'') = normalize_symbol ''BTCUSD''"
proof -
  have u: "upper ''BTCUSD'' = ''BTCUSD''" by (simp add: upper_def upper_char_def)
  have d: "CHR ''-'' \<notin> set ''BTCUSD''" by simp
  from symbol_normalization_idempotent[of "''BTCUSD''"] u d show ?thesis by blast
qed

subsection \<open>The constructor and the store\<close>

lemma get_api_interval_params_Inr:
  "get_api_interval_params v = Inr q \<Longrightarrow>
   \<exists>m u. q = v\<lparr>multiplier := Some m, timespan := Some u\<rparr>"
  by (auto simp: get_api_interval_params_def split: option.splits if_splits)

lemma init_Inr:
  assumes "PolygonCryptoHistoricalQueryParams_init p = Inr q"
  shows "\<exists>v. p_symbol p = Some v \<and> symbol q = upper_symbol v \<and>
           start_date q = p_start_date p \<and> end_date q = p_end_date p \<and> 0 < limit q"
proof -
  from assms obtain v where v: "p_symbol p = Some v"
    by (cases "p_symbol p") (auto simp: PolygonCryptoHistoricalQueryParams_init_def)
  define srt where "srt = (case p_sort p of None \<Rightarrow> ''desc'' | Some x \<Rightarrow> x)"
  define lim where "lim = (case p_limit p of None \<Rightarrow> 49999 | Some x \<Rightarrow> x)"
  define q0 where "q0 = \<lparr>symbol = upper_symbol v, start_date = p_start_date p,
      end_date = p_end_date p,
      interval = (case p_interval p of None \<Rightarrow> ''1d'' | Some x \<Rightarrow> x),
      sort_order = srt, limit = lim, multiplier = None, timespan = None\<rparr>"
  from assms v have lim: "0 < lim" and g: "get_api_interval_params q0 = Inr q"
    unfolding PolygonCryptoHistoricalQueryParams_init_def q0_def srt_def lim_def
    by (auto simp: Let_def split: if_splits sum.splits error.splits)
  from get_api_interval_params_Inr[OF g] obtain m u
    where "q = q0\<lparr>multiplier := Some m, timespan := Some u\<rparr>" by blast
  then show ?thesis using v lim by (simp add: q0_def)
qed

lemma params_update_same:
  "p_start_date p = a \<Longrightarrow> p\<lparr>p_start_date := a\<rparr> = p"
  "p_end_date p = b \<Longrightarrow> p\<lparr>p_end_date := b\<rparr> = p"
  "p_symbol p = c \<Longrightarrow> p\<lparr>p_symbol := c\<rparr> = p"
  by auto

text \<open>The store and the result of \<open>transform_query\<close> when the clock is past year 1.\<close>

lemma transform_query_store:
  assumes "p_start_date (h r) = None \<longrightarrow> minus_years now 1 = Inr d"
  shows "transform_query now r h =
     (let p' = (h r)\<lparr>p_start_date := (case p_start_date (h r) of
                                         None \<Rightarrow> Some d | Some x \<Rightarrow> Some x),
                      p_end_date := (case p_end_date (h r) of
                                       None \<Rightarrow> Some now | Some x \<Rightarrow> Some x),
                      p_symbol := (case p_symbol (h r) of
                                     None \<Rightarrow> None
                                   | Some s \<Rightarrow> Some (if s \<noteq> [] then replace ''-'' [] s
                                                    else s))\<rparr>
      in (h(r := p'), PolygonCryptoHistoricalQueryParams_init p'))"
  unfolding transform_query_def Let_def using assms
  by (cases "p_start_date (h r)"; cases "p_end_date (h r)"; cases "p_symbol (h r)")
     (simp_all add: params_update_same)

lemma transform_query_Inr_clock:
  assumes "snd (transform_query now r h) = Inr q"
  shows "p_start_date (h r) = None \<longrightarrow>
         minus_years now 1 =
           Inr \<lparr>year = year now - 1, month = month now,
                day = min (days_in_month (year now - 1) (month now)) (day now)\<rparr>"
proof (cases "minus_years now 1")
  case (Inl e)
  with assms show ?thesis by (auto simp: transform_query_def Let_def split: if_splits)
next
  case (Inr d)
  then show ?thesis by (auto simp: minus_years_def Let_def split: if_splits)
qed

lemma transform_query_symbol:
  assumes "snd (transform_query now r h) = Inr q" and "p_symbol (h r) = Some s"
  shows "symbol q = normalize_symbol s"
proof -
  note d = transform_query_Inr_clock[OF assms(1)]
  from assms show ?thesis
    unfolding transform_query_store[of h r now, OF d] Let_def
    by (auto dest!: init_Inr simp: normalize_symbol_def)
qed

text \<open>
  C8 (default dates).  When the dictionary has neither date and normalization
  succeeds, the query ends on the clock's date and starts one year earlier: the same
  month and day of the previous year, the day clipped to the month's length (29
  February becomes 28 February).
\<close>

theorem transform_query_default_dates:
  assumes "p_start_date (h r) = None" and "p_end_date (h r) = None"
    and "snd (transform_query now r h) = Inr q"
  shows "end_date q = Some now \<and>
         start_date q = Some \<lparr>year = year now - 1, month = month now,
                               day = min (days_in_month (year now - 1) (month now)) (day now)\<rparr> \<and>
         (valid_date now \<and> \<not> (month now = 2 \<and> day now = 29) \<longrightarrow>
            start_date q = Some (now\<lparr>year := year now - 1\<rparr>))"
proof -
  define d where "d = \<lparr>year = year now - 1, month = month now,
                       day = min (days_in_month (year now - 1) (month now)) (day now)\<rparr>"
  from transform_query_Inr_clock[OF assms(3)]
  have d': "p_start_date (h r) = None \<longrightarrow> minus_years now 1 = Inr d"
    by (simp add: d_def)
  from assms have dates: "end_date q = Some now \<and> start_date q = Some d"
    unfolding transform_query_store[of h r now d, OF d'] Let_def by (auto dest!: init_Inr)
  have clip: "valid_date now \<and> \<not> (month now = 2 \<and> day now = 29) \<longrightarrow>
              d = now\<lparr>year := year now - 1\<rparr>"
    unfolding d_def by (auto simp: valid_date_def days_in_month_def split: if_splits)
  from dates clip show ?thesis unfolding d_def by auto
qed

theorem transform_query_default_dates_witness:
  "p_start_date ((\<lambda>_. \<lparr>p_symbol = Some ''btc-usd'', p_start_date = None, p_end_date = None,
                       p_interval = None, p_sort = None, p_limit = None\<rparr>) (0::nat)) = None \<and>
   p_end_date ((\<lambda>_. \<lparr>p_symbol = Some ''btc-usd'', p_start_date = None, p_end_date = None,
                     p_interval = None, p_sort = None, p_limit = None\<rparr>) (0::nat)) = None \<and>
   snd (transform_query \<lparr>year = 2024, month = 3, day = 15\<rparr> 0
          (\<lambda>_. \<lparr>p_symbol = Some ''btc-usd'', p_start_date = None, p_end_date = None,
                 p_interval = None, p_sort = None, p_limit = None\<rparr>)) =
     Inr \<lparr>symbol = ''BTCUSD'',
          start_date = Some \<lparr>year = 2023, month = 3, day = 15\<rparr>,
          end_date = Some \<lparr>year = 2024, month = 3, day = 15\<rparr>,
          interval = ''1d'', sort_order = ''desc'', limit = 49999,
          multiplier = Some 1, timespan = Some ''day''\<rparr> \<and>
   end_date \<lparr>symbol = ''BTCUSD'',
          start_date = Some \<lparr>year = 2023, month = 3, day = 15\<rparr>,
          end_date = Some \<lparr>year = 2024, month = 3, day = 15\<rparr>,
          interval = ''1d'', sort_order = ''desc'', limit = 49999,
          multiplier = Some 1, timespan = Some ''day''\<rparr> = Some \<lparr>year = 2024, month = 3, day = 15\<rparr>"
proof -
  let ?h = "\<lambda>_::nat. \<lparr>p_symbol = Some ''btc-usd'', p_start_date = None, p_end_date = None,
                 p_interval = None, p_sort = None, p_limit = None\<rparr>"
  let ?now = "\<lparr>year = 2024, month = 3, day = 15\<rparr>"
  let ?q = "\<lparr>symbol = ''BTCUSD'',
          start_date = Some \<lparr>year = 2023, month = 3, day = 15\<rparr>,
          end_date = Some \<lparr>year = 2024, month = 3, day = 15\<rparr>,
          interval = ''1d'', sort_order = ''desc'', limit = 49999,
          multiplier = Some 1, timespan = Some ''day''\<rparr>"
  have run: "snd (transform_query ?now 0 ?h) = Inr ?q"
    by (simp add: transform_query_def minus_years_def days_in_month_def is_leap_def
        PolygonCryptoHistoricalQueryParams_init_def get_api_interval_params_def
        py_int_def strip_def is_space_def is_digit_def digits_value_def digit_val_def
        intervals_def upper_symbol_def upper_def upper_char_def replace_def Let_def)
  from transform_query_default_dates[of ?h 0 ?now ?q, OF _ _ run] run
  show ?thesis by simp
qed

lemmas query_eval =
  transform_query_def minus_years_def days_in_month_def is_leap_def
  PolygonCryptoHistoricalQueryParams_init_def get_api_interval_params_def
  py_int_def strip_def is_space_def is_digit_def digits_value_def digit_val_def
  intervals_def upper_symbol_def upper_def upper_char_def replace_def Let_def

lemma minus_years_in_range:
  assumes "1 < year now" and "year now \<le> 10000"
  shows "minus_years now 1 =
           Inr \<lparr>year = year now - 1, month = month now,
                day = min (days_in_month (year now - 1) (month now)) (day now)\<rparr>"
  using assms by (simp add: minus_years_def Let_def)

lemma filter_dash_neq:
  "CHR ''-'' \<in> set s \<Longrightarrow> filter (\<lambda>x. x \<noteq> CHR ''-'') s \<noteq> s"
  by (auto simp: filter_id_conv)

text \<open>
  Normalization does return a query: with a symbol, a valid sort order, a positive
  limit and an interval made of a decimal number and a unit of the table (or the
  defaults), and a clock past year 1, \<open>transform_query\<close> succeeds.
\<close>

lemma transform_query_succeeds:
  assumes "p_symbol (h r) = Some s"
    and "p_sort (h r) \<in> {None, Some ''asc'', Some ''desc''}"
    and "p_limit (h r) = None \<or> (\<exists>l. p_limit (h r) = Some l \<and> 0 < l)"
    and "p_interval (h r) = None \<or> (\<exists>n u name. p_interval (h r) = Some (str_nat n @ [u]) \<and>
           map_of intervals u = Some name)"
    and "1 < year now" and "year now \<le> 10000"
  shows "\<exists>q. snd (transform_query now r h) = Inr q"
proof -
  define d where "d = \<lparr>year = year now - 1, month = month now,
                       day = min (days_in_month (year now - 1) (month now)) (day now)\<rparr>"
  have d': "p_start_date (h r) = None \<longrightarrow> minus_years now 1 = Inr d"
    using minus_years_in_range[OF assms(5,6)] by (simp add: d_def)
  define p' where "p' = (h r)\<lparr>p_start_date := (case p_start_date (h r) of
                                         None \<Rightarrow> Some d | Some x \<Rightarrow> Some x),
                      p_end_date := (case p_end_date (h r) of
                                       None \<Rightarrow> Some now | Some x \<Rightarrow> Some x),
                      p_symbol := (case p_symbol (h r) of
                                     None \<Rightarrow> None
                                   | Some s \<Rightarrow> Some (if s \<noteq> [] then replace ''-'' [] s
                                                    else s))\<rparr>"
  have res: "snd (transform_query now r h) = PolygonCryptoHistoricalQueryParams_init p'"
    unfolding transform_query_store[of h r now d, OF d'] Let_def p'_def by simp
  define q0 where "q0 = \<lparr>symbol = upper_symbol (if s \<noteq> [] then replace ''-'' [] s else s),
      start_date = p_start_date p', end_date = p_end_date p',
      interval = (case p_interval p' of None \<Rightarrow> ''1d'' | Some x \<Rightarrow> x),
      sort_order = (case p_sort p' of None \<Rightarrow> ''desc'' | Some x \<Rightarrow> x),
      limit = (case p_limit p' of None \<Rightarrow> 49999 | Some x \<Rightarrow> x),
      multiplier = None, timespan = None\<rparr>"
  have iv: "p_interval p' = p_interval (h r)" "p_sort p' = p_sort (h r)"
    "p_limit p' = p_limit (h r)" by (simp_all add: p'_def)
  have one: "''1d'' = str_nat 1 @ [CHR ''d'']" by (simp add: str_nat.simps digit_char_def)
  have "\<exists>n u name. interval q0 = str_nat n @ [u] \<and> map_of intervals u = Some name"
  proof (cases "p_interval (h r)")
    case None
    have "map_of intervals CHR ''d'' = Some ''day''" by (simp add: intervals_def)
    with None one show ?thesis unfolding q0_def iv by (simp del: str_nat.simps) blast
  next
    case (Some x)
    with assms(4) show ?thesis unfolding q0_def iv by auto
  qed
  then obtain n u name where i: "interval q0 = str_nat n @ [u]" "map_of intervals u = Some name"
    by blast
  have same: "q0\<lparr>interval := str_nat n @ [u]\<rparr> = q0" using i(1) by simp
  from get_api_interval_params_valid[OF i(2), where q = q0 and n = n]
  have g: "get_api_interval_params q0 = Inr (q0\<lparr>multiplier := Some (int n), timespan := Some name\<rparr>)"
    unfolding same .
  have "PolygonCryptoHistoricalQueryParams_init p' = Inr (q0\<lparr>multiplier := Some (int n), timespan := Some name\<rparr>)"
    using assms(1,2,3) g
    unfolding PolygonCryptoHistoricalQueryParams_init_def Let_def q0_def iv
    by (auto simp: p'_def)
  with res show ?thesis by simp
qed

text \<open>
  C10 (the caller's dictionary is mutated).  \<open>transformed_params\<close> is the caller's
  dictionary itself, so after the call the dictionary at the caller's reference holds
  the default dates where a date was missing and the dash-free symbol; it differs
  from the dictionary passed in as soon as a date was missing or the symbol had a
  dash; no other dictionary changes.  The dates of the returned query are the
  dictionary's, and its symbol is the dictionary's symbol in uppercase.
\<close>

theorem transform_query_mutates_params:
  assumes "1 < year now" and "year now \<le> 10000"
  shows "p_start_date (fst (transform_query now r h) r) =
           (case p_start_date (h r) of
              None \<Rightarrow> Some \<lparr>year = year now - 1, month = month now,
                            day = min (days_in_month (year now - 1) (month now)) (day now)\<rparr>
            | Some x \<Rightarrow> Some x) \<and>
         p_end_date (fst (transform_query now r h) r) =
           (case p_end_date (h r) of None \<Rightarrow> Some now | Some x \<Rightarrow> Some x) \<and>
         p_symbol (fst (transform_query now r h) r) =
           (case p_symbol (h r) of
              None \<Rightarrow> None
            | Some s \<Rightarrow> Some (if s \<noteq> [] then replace ''-'' [] s else s)) \<and>
         (p_start_date (h r) = None \<or> p_end_date (h r) = None \<or>
            (\<exists>s. p_symbol (h r) = Some s \<and> CHR ''-'' \<in> set s)
          \<longrightarrow> fst (transform_query now r h) r \<noteq> h r) \<and>
         (\<forall>r'. r' \<noteq> r \<longrightarrow> fst (transform_query now r h) r' = h r') \<and>
         (\<forall>q. snd (transform_query now r h) = Inr q \<longrightarrow>
            start_date q = p_start_date (fst (transform_query now r h) r) \<and>
            end_date q = p_end_date (fst (transform_query now r h) r) \<and>
            Some (symbol q) = map_option upper (p_symbol (fst (transform_query now r h) r)))"
proof -
  define d where "d = \<lparr>year = year now - 1, month = month now,
                       day = min (days_in_month (year now - 1) (month now)) (day now)\<rparr>"
  have d': "p_start_date (h r) = None \<longrightarrow> minus_years now 1 = Inr d"
    using minus_years_in_range[OF assms] by (simp add: d_def)
  note st = transform_query_store[of h r now d, OF d']
  have a: "p_start_date (fst (transform_query now r h) r) =
           (case p_start_date (h r) of None \<Rightarrow> Some d | Some x \<Rightarrow> Some x)"
    unfolding st Let_def by simp
  have b: "p_end_date (fst (transform_query now r h) r) =
           (case p_end_date (h r) of None \<Rightarrow> Some now | Some x \<Rightarrow> Some x)"
    unfolding st Let_def by simp
  have c: "p_symbol (fst (transform_query now r h) r) =
           (case p_symbol (h r) of
              None \<Rightarrow> None
            | Some s \<Rightarrow> Some (if s \<noteq> [] then replace ''-'' [] s else s))"
    unfolding st Let_def by simp
  have e: "p_start_date (h r) = None \<or> p_end_date (h r) = None \<or>
            (\<exists>s. p_symbol (h r) = Some s \<and> CHR ''-'' \<in> set s)
          \<longrightarrow> fst (transform_query now r h) r \<noteq> h r"
  proof
    assume "p_start_date (h r) = None \<or> p_end_date (h r) = None \<or>
            (\<exists>s. p_symbol (h r) = Some s \<and> CHR ''-'' \<in> set s)"
    then consider "p_start_date (h r) = None" | "p_end_date (h r) = None"
      | s where "p_symbol (h r) = Some s" "CHR ''-'' \<in> set s" by auto
    then show "fst (transform_query now r h) r \<noteq> h r"
    proof cases
      case 1
      with a have "p_start_date (fst (transform_query now r h) r) \<noteq> p_start_date (h r)"
        by simp
      then show ?thesis by metis
    next
      case 2
      with b have "p_end_date (fst (transform_query now r h) r) \<noteq> p_end_date (h r)"
        by simp
      then show ?thesis by metis
    next
      case 3
      then have "s \<noteq> []" by auto
      with 3 c filter_dash_neq[of s]
      have "p_symbol (fst (transform_query now r h) r) \<noteq> p_symbol (h r)"
        by (simp add: replace_dash)
      then show ?thesis by metis
    qed
  qed
  have f: "\<forall>r'. r' \<noteq> r \<longrightarrow> fst (transform_query now r h) r' = h r'"
    unfolding st Let_def by simp
  have g: "\<forall>q. snd (transform_query now r h) = Inr q \<longrightarrow>
            start_date q = p_start_date (fst (transform_query now r h) r) \<and>
            end_date q = p_end_date (fst (transform_query now r h) r) \<and>
            Some (symbol q) = map_option upper (p_symbol (fst (transform_query now r h) r))"
    unfolding st Let_def by (auto dest!: init_Inr simp: upper_symbol_def)
  from a b c e f g show ?thesis unfolding d_def by blast
qed

theorem transform_query_mutates_params_witness:
  "(1::int) < year \<lparr>year = 2024, month = 3, day = 15\<rparr> \<and>
   year \<lparr>year = 2024, month = 3, day = 15\<rparr> \<le> 10000 \<and>
   fst (transform_query \<lparr>year = 2024, month = 3, day = 15\<rparr> 0
          (\<lambda>_. \<lparr>p_symbol = Some ''btc-usd'', p_start_date = None, p_end_date = None,
                 p_interval = None, p_sort = None, p_limit = None\<rparr>)) 0 =
     \<lparr>p_symbol = Some ''btcusd'',
      p_start_date = Some \<lparr>year = 2023, month = 3, day = 15\<rparr>,
      p_end_date = Some \<lparr>year = 2024, month = 3, day = 15\<rparr>,
      p_interval = None, p_sort = None, p_limit = None\<rparr> \<and>
   fst (transform_query \<lparr>year = 2024, month = 3, day = 15\<rparr> 0
          (\<lambda>_. \<lparr>p_symbol = Some ''btc-usd'', p_start_date = None, p_end_date = None,
                 p_interval = None, p_sort = None, p_limit = None\<rparr>)) 0 \<noteq>
     \<lparr>p_symbol = Some ''btc-usd'', p_start_date = None, p_end_date = None,
      p_interval = None, p_sort = None, p_limit = None\<rparr>"
proof -
  let ?h = "\<lambda>_::nat. \<lparr>p_symbol = Some ''btc-usd'', p_start_date = None, p_end_date = None,
                 p_interval = None, p_sort = None, p_limit = None\<rparr>"
  let ?now = "\<lparr>year = 2024, month = 3, day = 15\<rparr>"
  have y: "1 < year ?now" "year ?now \<le> 10000" by simp_all
  have run: "fst (transform_query ?now 0 ?h) 0 =
     \<lparr>p_symbol = Some ''btcusd'',
      p_start_date = Some \<lparr>year = 2023, month = 3, day = 15\<rparr>,
      p_end_date = Some \<lparr>year = 2024, month = 3, day = 15\<rparr>,
      p_interval = None, p_sort = None, p_limit = None\<rparr>"
    by (simp add: query_eval)
  from transform_query_mutates_params[of ?now 0 ?h, OF y]
  have "fst (transform_query ?now 0 ?h) 0 \<noteq> ?h 0" by simp
  with run y show ?thesis by simp
qed

subsection \<open>What normalization rejects\<close>

text \<open>
  C2, as stated, fails: an empty symbol and a start date after the end date both pass
  \<open>transform_query\<close>; neither the function nor the query model compares the dates or
  looks at the length of the symbol.
\<close>

theorem transform_query_accepts_empty_symbol_and_reversed_dates:
  "snd (transform_query \<lparr>year = 2024, month = 3, day = 15\<rparr> 0
          (\<lambda>_. \<lparr>p_symbol = Some [], p_start_date = None, p_end_date = None,
                 p_interval = None, p_sort = None, p_limit = None\<rparr>)) =
     Inr \<lparr>symbol = [],
          start_date = Some \<lparr>year = 2023, month = 3, day = 15\<rparr>,
          end_date = Some \<lparr>year = 2024, month = 3, day = 15\<rparr>,
          interval = ''1d'', sort_order = ''desc'', limit = 49999,
          multiplier = Some 1, timespan = Some ''day''\<rparr> \<and>
   snd (transform_query \<lparr>year = 2024, month = 3, day = 15\<rparr> 0
          (\<lambda>_. \<lparr>p_symbol = Some ''BTCUSD'',
                 p_start_date = Some \<lparr>year = 2024, month = 6, day = 1\<rparr>,
                 p_end_date = Some \<lparr>year = 2023, month = 1, day = 1\<rparr>,
                 p_interval = None, p_sort = None, p_limit = None\<rparr>)) =
     Inr \<lparr>symbol = ''BTCUSD'',
          start_date = Some \<lparr>year = 2024, month = 6, day = 1\<rparr>,
          end_date = Some \<lparr>year = 2023, month = 1, day = 1\<rparr>,
          interval = ''1d'', sort_order = ''desc'', limit = 49999,
          multiplier = Some 1, timespan = Some ''day''\<rparr>"
  by (simp add: query_eval)

lemma init_nonpositive_limit:
  assumes "p_limit p = Some l" and "l \<le> 0"
  shows "PolygonCryptoHistoricalQueryParams_init p = Inl ValidationError"
  using assms
  by (cases "p_symbol p") (simp_all add: PolygonCryptoHistoricalQueryParams_init_def Let_def)

text \<open>
  C2, amended.  A limit that is not positive is rejected: \<open>transform_query\<close> fails,
  with pydantic's \<open>ValidationError\<close> when the clock is in range, and the fetcher ends
  there with the transport untouched: no request has been issued.
\<close>

theorem nonpositive_limit_rejected_before_requests:
  assumes "p_limit (h r) = Some l" and "l \<le> 0"
  shows "\<exists>e h'. transform_query now r h = (h', Inl e) \<and>
           fetch_data get now r h credentials st = Some (Inl e, h', st) \<and>
           (1 < year now \<and> year now \<le> 10000 \<longrightarrow> e = ValidationError)"
proof (cases "p_start_date (h r) = None \<and> (year now - 1 < 1 \<or> 9999 < year now - 1)")
  case True
  then have "transform_query now r h = (h, Inl ValueError)"
    by (simp add: transform_query_def minus_years_def Let_def)
  with True show ?thesis by (auto simp: fetch_data_def)
next
  case False
  define d where "d = \<lparr>year = year now - 1, month = month now,
                       day = min (days_in_month (year now - 1) (month now)) (day now)\<rparr>"
  from False have d': "p_start_date (h r) = None \<longrightarrow> minus_years now 1 = Inr d"
    by (auto simp: minus_years_def d_def Let_def)
  obtain h' res where t: "transform_query now r h = (h', res)" by (cases "transform_query now r h")
  have "res = Inl ValidationError"
    using t assms unfolding transform_query_store[of h r now d, OF d'] Let_def
    by (auto intro!: init_nonpositive_limit)
  with t show ?thesis by (auto simp: fetch_data_def)
qed

theorem nonpositive_limit_rejected_before_requests_witness:
  "fetch_data (\<lambda>(s::nat) u. (\<lparr>next_url = None, results = None\<rparr>, s))
     \<lparr>year = 2024, month = 3, day = 15\<rparr> 0
     (\<lambda>_. \<lparr>p_symbol = Some ''BTCUSD'', p_start_date = None, p_end_date = None,
            p_interval = None, p_sort = None, p_limit = Some 0\<rparr>)
     None \<lparr>srv = 0, requests = [], warnings = []\<rparr>
   = Some (Inl ValidationError,
           fst (transform_query \<lparr>year = 2024, month = 3, day = 15\<rparr> 0
                 (\<lambda>_. \<lparr>p_symbol = Some ''BTCUSD'', p_start_date = None, p_end_date = None,
                        p_interval = None, p_sort = None, p_limit = Some 0\<rparr>)),
           \<lparr>srv = 0, requests = [], warnings = []\<rparr>)"
proof -
  let ?h = "\<lambda>_::nat. \<lparr>p_symbol = Some ''BTCUSD'', p_start_date = None, p_end_date = None,
            p_interval = None, p_sort = None, p_limit = Some 0\<rparr>"
  let ?now = "\<lparr>year = 2024, month = 3, day = 15\<rparr>"
  have l: "p_limit (?h 0) = Some 0" "(0::int) \<le> 0" by simp_all
  from nonpositive_limit_rejected_before_requests[of ?h 0 0, OF l, of ?now
      "\<lambda>(s::nat) u. (\<lparr>next_url = None, results = None\<rparr>, s)" None
      "\<lparr>srv = 0, requests = [], warnings = []\<rparr>"]
  show ?thesis by auto
qed

lemmas text_eval =
  isoparse_def parse_isodate_def parse_isotime_def parse_offset_def all_digits_def
  valid_date_def days_in_month_def is_leap_def is_digit_def digits_value_def digit_val_def
  py_str_def date_validate_def Let_def

subsection \<open>The date of an ordinal\<close>







lemmas stamp_eval =
  utc_fromtimestamp_ms_def ord2ymd_def days_before_month_def days_in_month_common_def
  days_in_month_def is_leap_def
  strftime_iso_def isoformat_def pad_def zfill_def format_z_def str_nat.simps digit_char_def
  Let_def

subsection \<open>Timestamps of the rows\<close>



lemma utc_fromtimestamp_ms_in_range:
  assumes "- 62135596800000 \<le> t" and "t \<le> 253402300799999"
  shows "utc_fromtimestamp_ms t =
           Inr \<lparr>dt_date = ord2ymd (719163 + t div 1000 div 86400),
                hour = t div 1000 mod 86400 div 3600,
                minute = t div 1000 mod 86400 mod 3600 div 60,
                second = t div 1000 mod 86400 mod 60,
                microsecond = t mod 1000 * 1000,
                utcoffset = Some 0\<rparr>"
    and "1 \<le> 719163 + t div 1000 div 86400"
    and "719163 + t div 1000 div 86400 \<le> 3652059"
proof -
  from assms have "- 62135596800 \<le> t div 1000" "t div 1000 \<le> 253402300799" by linarith+
  then have b: "- 719162 \<le> t div 1000 div 86400" "t div 1000 div 86400 \<le> 2932896"
    by linarith+
  then show "utc_fromtimestamp_ms t =
           Inr \<lparr>dt_date = ord2ymd (719163 + t div 1000 div 86400),
                hour = t div 1000 mod 86400 div 3600,
                minute = t div 1000 mod 86400 mod 3600 div 60,
                second = t div 1000 mod 86400 mod 60,
                microsecond = t mod 1000 * 1000,
                utcoffset = Some 0\<rparr>"
    by (simp add: utc_fromtimestamp_ms_def Let_def)
  from b show "1 \<le> 719163 + t div 1000 div 86400"
    and "719163 + t div 1000 div 86400 \<le> 3652059" by simp_all
qed




subsection \<open>The date of a canonical record\<close>

lemma date_validate_parsed:
  assumes "isoparse (py_str v) = Inr w"
  shows "date_validate v =
           Inr (if hour w = 0 \<and> minute w = 0 then DateOnly (dt_date w) else DateTime w)"
  using assms by (simp add: date_validate_def)

text \<open>
  C7 (date-only exactly on a day boundary).  \<open>date_validate\<close> of the standard data
  model looks at the hour and the minute only.  The text that the callback writes
  for a bar of a one-second interval, thirty seconds after midnight, carries its
  time; given that text, the validator returns the bare date: the seconds are lost,
  where the specification asks for a full date-time.  A text one minute after
  midnight keeps its time.
\<close>

theorem date_validate_drops_seconds:
  "process_row
      \<lparr>symbol = ''BTCUSD'', start_date = None, end_date = None, interval = ''1s'',
       sort_order = ''desc'', limit = 49999, multiplier = Some 1, timespan = Some ''second''\<rparr>
      ''X:BTCUSD''
      \<lparr>key_t = TMillis 1672531230000, key_o = Some 1, key_h = Some 2, key_l = Some 1,
       key_c = Some 2, key_v = None, key_vw = None, key_n = Some 3, key_symbol = None\<rparr>
    = Inr \<lparr>key_t = TText ''2023-01-01T00:00:30+0000'', key_o = Some 1, key_h = Some 2,
           key_l = Some 1, key_c = Some 2, key_v = None, key_vw = None, key_n = Some 3,
           key_symbol = None\<rparr> \<and>
   date_validate (TText ''2023-01-01T00:00:30+0000'') =
     Inr (DateOnly \<lparr>year = 2023, month = 1, day = 1\<rparr>) \<and>
   date_validate (TText ''2023-01-01T00:01:00+0000'') =
     Inr (DateTime \<lparr>dt_date = \<lparr>year = 2023, month = 1, day = 1\<rparr>, hour = 0, minute = 1,
                    second = 0, microsecond = 0, utcoffset = Some 0\<rparr>)"
proof -
  have a: "utc_fromtimestamp_ms 1672531230000 =
             Inr \<lparr>dt_date = \<lparr>year = 2023, month = 1, day = 1\<rparr>, hour = 0, minute = 0,
                  second = 30, microsecond = 0, utcoffset = Some 0\<rparr>"
    by (simp add: stamp_eval)
  have b: "strftime_iso \<lparr>dt_date = \<lparr>year = 2023, month = 1, day = 1\<rparr>, hour = 0, minute = 0,
                  second = 30, microsecond = 0, utcoffset = Some 0\<rparr>
             = ''2023-01-01T00:00:30+0000''"
    by (simp add: stamp_eval)
  have c: "date_validate (TText ''2023-01-01T00:00:30+0000'') =
     Inr (DateOnly \<lparr>year = 2023, month = 1, day = 1\<rparr>)"
    by (simp add: text_eval)
  have d: "date_validate (TText ''2023-01-01T00:01:00+0000'') =
     Inr (DateTime \<lparr>dt_date = \<lparr>year = 2023, month = 1, day = 1\<rparr>, hour = 0, minute = 1,
                    second = 0, microsecond = 0, utcoffset = Some 0\<rparr>)"
    by (simp add: text_eval)
  show ?thesis by (simp add: process_row_def a b c d)
qed

subsection \<open>\<open>transform_data\<close>\<close>

lemma parse_isodate_error:
  "parse_isodate s = Inl e \<Longrightarrow> e = ValueError \<or> e = UnsupportedFormat"
  by (auto simp: parse_isodate_def Let_def split: if_splits)

lemma parse_isotime_error:
  "parse_isotime s = Inl e \<Longrightarrow> e = ValueError \<or> e = UnsupportedFormat"
  by (auto simp: parse_isotime_def Let_def split: if_splits)

lemma parse_offset_error:
  "parse_offset s = Inl e \<Longrightarrow> e = ValueError \<or> e = UnsupportedFormat"
  by (auto simp: parse_offset_def Let_def split: if_splits)

lemma isoparse_error:
  assumes "isoparse s = Inl e"
  shows "e = ValueError \<or> e = UnsupportedFormat"
proof (cases "parse_isodate (take 10 s)")
  case (Inl a)
  with assms parse_isodate_error[of "take 10 s" a] show ?thesis by (simp add: isoparse_def)
next
  case d: (Inr d)
  show ?thesis
  proof (cases "parse_isotime (take 8 (drop 11 s))")
    case (Inl a)
    with assms d parse_isotime_error[of "take 8 (drop 11 s)" a] show ?thesis
      by (simp add: isoparse_def split: if_splits)
  next
    case t: (Inr hms)
    show ?thesis
    proof (cases "parse_offset (drop 19 s)")
      case (Inl a)
      with assms d t parse_offset_error[of "drop 19 s" a] show ?thesis
        by (cases hms) (simp add: isoparse_def split: if_splits)
    next
      case (Inr off)
      with assms d t show ?thesis
        by (cases hms) (simp add: isoparse_def split: if_splits)
    qed
  qed
qed

lemma model_validate_error:
  assumes "model_validate d = Inl e"
  shows "e = ValidationError \<or> e = UnsupportedFormat"
proof (cases "isoparse (py_str (key_t d))")
  case (Inl a)
  with isoparse_error[of "py_str (key_t d)" a] assms show ?thesis
    by (auto simp: model_validate_def date_validate_def)
next
  case (Inr w)
  with assms show ?thesis
    by (auto simp: model_validate_def date_validate_def split: option.splits if_splits)
qed

lemma validate_all_Inr:
  "validate_all rows = Inr xs \<Longrightarrow> map model_validate rows = map Inr xs"
  by (induction rows arbitrary: xs) (auto split: sum.splits)

lemma validate_all_Inl:
  "validate_all rows = Inl e \<Longrightarrow> \<exists>r \<in> set rows. model_validate r = Inl e"
  by (induction rows) (auto split: sum.splits)

lemma validate_all_total:
  "\<forall>r \<in> set rows. \<exists>x. model_validate r = Inr x \<Longrightarrow> \<exists>xs. validate_all rows = Inr xs"
  by (induction rows) (auto split: sum.splits)

lemma validate_all_fails:
  assumes "r \<in> set rows" and "model_validate r = Inl e"
  shows "\<exists>e'. validate_all rows = Inl e'"
proof (cases "validate_all rows")
  case (Inl e')
  then show ?thesis by blast
next
  case (Inr xs)
  from assms(1) have "model_validate r \<in> set (map model_validate rows)" by simp
  with validate_all_Inr[OF Inr] assms(2) show ?thesis by auto
qed

text \<open>
  C3, as stated, fails: a sequence that is not empty does not always come back as
  records.  A row whose trade count \<open>n\<close> is 0 is refused by the \<open>PositiveInt\<close> field
  and the whole call raises the validation error.
\<close>

theorem transform_data_rejects_row:
  "transform_data
     \<lparr>symbol = ''BTCUSD'', start_date = None, end_date = None, interval = ''1d'',
      sort_order = ''desc'', limit = 49999, multiplier = Some 1, timespan = Some ''day''\<rparr>
     [\<lparr>key_t = TDate \<lparr>year = 2023, month = 1, day = 1\<rparr>, key_o = Some 1, key_h = Some 2,
       key_l = Some 1, key_c = Some 2, key_v = Some 0, key_vw = None, key_n = Some 0,
       key_symbol = None\<rparr>]
   = Inl ValidationError"
  by (simp add: transform_data_def model_validate_def text_eval isoformat_def pad_def
      zfill_def str_nat.simps digit_char_def)

text \<open>
  C3, amended.  \<open>transform_data\<close> raises \<open>EmptyDataError\<close> exactly when the sequence is
  empty.  When the sequence is not empty and every row passes validation it returns
  one record per row, in the same order, each the validation of its row; when some
  row fails validation the call ends with that row's error, which is never
  \<open>EmptyDataError\<close>.
\<close>

theorem transform_data_empty_or_rowwise:
  "(transform_data q rows = Inl EmptyDataError \<longleftrightarrow> rows = []) \<and>
   (rows \<noteq> [] \<and> (\<forall>r \<in> set rows. \<exists>x. model_validate r = Inr x) \<longrightarrow>
      (\<exists>xs. transform_data q rows = Inr xs \<and> length xs = length rows \<and>
            (\<forall>i < length rows. model_validate (rows ! i) = Inr (xs ! i)))) \<and>
   (rows \<noteq> [] \<and> (\<exists>r \<in> set rows. \<exists>e. model_validate r = Inl e) \<longrightarrow>
      (\<exists>e. transform_data q rows = Inl e \<and> e \<noteq> EmptyDataError \<and>
           (\<exists>r \<in> set rows. model_validate r = Inl e)))"
proof (intro conjI)
  show "transform_data q rows = Inl EmptyDataError \<longleftrightarrow> rows = []"
  proof
    assume a: "transform_data q rows = Inl EmptyDataError"
    show "rows = []"
    proof (rule ccontr)
      assume "rows \<noteq> []"
      with a have "validate_all rows = Inl EmptyDataError" by (simp add: transform_data_def)
      from validate_all_Inl[OF this] obtain r where "model_validate r = Inl EmptyDataError"
        by blast
      from model_validate_error[OF this] show False by simp
    qed
  next
    assume "rows = []"
    then show "transform_data q rows = Inl EmptyDataError" by (simp add: transform_data_def)
  qed
next
  show "rows \<noteq> [] \<and> (\<forall>r \<in> set rows. \<exists>x. model_validate r = Inr x) \<longrightarrow>
      (\<exists>xs. transform_data q rows = Inr xs \<and> length xs = length rows \<and>
            (\<forall>i < length rows. model_validate (rows ! i) = Inr (xs ! i)))"
  proof
    assume a: "rows \<noteq> [] \<and> (\<forall>r \<in> set rows. \<exists>x. model_validate r = Inr x)"
    with validate_all_total[of rows] obtain xs where xs: "validate_all rows = Inr xs" by blast
    from validate_all_Inr[OF xs] have m: "map model_validate rows = map Inr xs" .
    then have len: "length xs = length rows" by (metis length_map)
    have "\<forall>i < length rows. model_validate (rows ! i) = Inr (xs ! i)"
    proof (intro allI impI)
      fix i assume i: "i < length rows"
      then have "model_validate (rows ! i) = map model_validate rows ! i" by simp
      also have "\<dots> = map Inr xs ! i" by (simp only: m)
      also have "\<dots> = Inr (xs ! i)" using i len by simp
      finally show "model_validate (rows ! i) = Inr (xs ! i)" .
    qed
    with a xs len show "\<exists>xs. transform_data q rows = Inr xs \<and> length xs = length rows \<and>
            (\<forall>i < length rows. model_validate (rows ! i) = Inr (xs ! i))"
      by (simp add: transform_data_def)
  qed
next
  show "rows \<noteq> [] \<and> (\<exists>r \<in> set rows. \<exists>e. model_validate r = Inl e) \<longrightarrow>
      (\<exists>e. transform_data q rows = Inl e \<and> e \<noteq> EmptyDataError \<and>
           (\<exists>r \<in> set rows. model_validate r = Inl e))"
  proof
    assume a: "rows \<noteq> [] \<and> (\<exists>r \<in> set rows. \<exists>e. model_validate r = Inl e)"
    then obtain r e where "r \<in> set rows" "model_validate r = Inl e" by blast
    from validate_all_fails[OF this] obtain e' where e': "validate_all rows = Inl e'" by blast
    from validate_all_Inl[OF e'] obtain r' where r': "r' \<in> set rows" "model_validate r' = Inl e'"
      by blast
    from model_validate_error[OF r'(2)] have "e' \<noteq> EmptyDataError" by auto
    with a e' r' show "\<exists>e. transform_data q rows = Inl e \<and> e \<noteq> EmptyDataError \<and>
           (\<exists>r \<in> set rows. model_validate r = Inl e)"
      by (auto simp: transform_data_def)
  qed
qed

theorem transform_data_empty_or_rowwise_witness:
  "[\<lparr>key_t = TDate \<lparr>year = 2023, month = 1, day = 1\<rparr>, key_o = Some 1, key_h = Some 2,
      key_l = Some 1, key_c = Some 2, key_v = None, key_vw = None, key_n = Some 3,
      key_symbol = None\<rparr>] \<noteq> [] \<and>
   model_validate
     \<lparr>key_t = TDate \<lparr>year = 2023, month = 1, day = 1\<rparr>, key_o = Some 1, key_h = Some 2,
      key_l = Some 1, key_c = Some 2, key_v = None, key_vw = None, key_n = Some 3,
      key_symbol = None\<rparr>
   = Inr \<lparr>d_date = DateOnly \<lparr>year = 2023, month = 1, day = 1\<rparr>, d_open = 1, d_high = 2,
          d_low = 1, d_close = 2, d_volume = None, d_vwap = None, d_transactions = Some 3,
          d_symbol = None\<rparr> \<and>
   (\<exists>xs. transform_data
      \<lparr>symbol = ''BTCUSD'', start_date = None, end_date = None, interval = ''1d'',
        sort_order = ''desc'', limit = 49999, multiplier = Some 1, timespan = Some ''day''\<rparr>
      [\<lparr>key_t = TDate \<lparr>year = 2023, month = 1, day = 1\<rparr>, key_o = Some 1, key_h = Some 2,
        key_l = Some 1, key_c = Some 2, key_v = None, key_vw = None, key_n = Some 3,
        key_symbol = None\<rparr>] = Inr xs \<and> length xs = 1)"
proof -
  let ?r = "\<lparr>key_t = TDate \<lparr>year = 2023, month = 1, day = 1\<rparr>, key_o = Some 1, key_h = Some 2,
      key_l = Some 1, key_c = Some 2, key_v = None, key_vw = None, key_n = Some 3,
      key_symbol = None\<rparr>"
  have v: "model_validate ?r
     = Inr \<lparr>d_date = DateOnly \<lparr>year = 2023, month = 1, day = 1\<rparr>, d_open = 1, d_high = 2,
          d_low = 1, d_close = 2, d_volume = None, d_vwap = None, d_transactions = Some 3,
          d_symbol = None\<rparr>"
    by (simp add: model_validate_def text_eval isoformat_def pad_def
      zfill_def str_nat.simps digit_char_def)
  then have ok: "[?r] \<noteq> [] \<and> (\<forall>r \<in> set [?r]. \<exists>x. model_validate r = Inr x)" by simp
  let ?q = "\<lparr>symbol = ''BTCUSD'', start_date = None, end_date = None, interval = ''1d'',
        sort_order = ''desc'', limit = 49999, multiplier = Some 1, timespan = Some ''day''\<rparr>"
  from transform_data_empty_or_rowwise[of ?q "[?r]"] ok
  have "\<exists>xs. transform_data ?q [?r] = Inr xs \<and> length xs = length [?r]" by blast
  with v show ?thesis by simp
qed

subsection \<open>Pagination\<close>

lemma follow_pages_follows:
  assumes "follows get key (srv st) nxt ps"
  shows "\<exists>st'. follow_pages get key nxt rows st = Some (rows @ concat (map results_of ps), st') \<and>
           requests st' = requests st
             @ map (\<lambda>v. fstr v @ ''&apiKey='' @ key) (butlast (nxt # map next_url ps)) \<and>
           warnings st' = warnings st"
  using assms
proof (induction ps arbitrary: st nxt rows)
  case Nil
  then show ?case by (subst follow_pages.simps) auto
next
  case (Cons p ps)
  from Cons.prems obtain u where u: "nxt = Some u" "u \<noteq> []"
    and p: "fst (get (srv st) (u @ ''&apiKey='' @ key)) = p"
    and f: "follows get key (snd (get (srv st) (u @ ''&apiKey='' @ key))) (next_url p) ps"
    by (cases nxt) auto
  define st1 where "st1 = st\<lparr>srv := snd (get (srv st) (u @ ''&apiKey='' @ key)),
                               requests := requests st @ [u @ ''&apiKey='' @ key]\<rparr>"
  from f have "follows get key (srv st1) (next_url p) ps" by (simp add: st1_def)
  from Cons.IH[OF this, of "rows @ results_of p"] obtain st'
    where r: "follow_pages get key (next_url p) (rows @ results_of p) st1 =
                Some ((rows @ results_of p) @ concat (map results_of ps), st')"
      and q: "requests st' = requests st1
                @ map (\<lambda>v. fstr v @ ''&apiKey='' @ key) (butlast (next_url p # map next_url ps))"
      and w: "warnings st' = warnings st1" by blast
  have "follow_pages get key nxt rows st = follow_pages get key (next_url p) (rows @ results_of p) st1"
    using p by (subst follow_pages.simps) (simp add: u st1_def Let_def)
  with r q w u show ?case by (auto simp: st1_def fstr_def)
qed

lemma process_rows_Inr:
  "process_rows q tick rows = Inr rows' \<Longrightarrow>
   map (process_row q tick) rows = map Inr rows'"
  by (induction rows arbitrary: rows') (auto split: sum.splits)

lemma process_rows_rowwise:
  assumes "process_rows q tick rows = Inr rows'"
  shows "length rows' = length rows \<and>
         (\<forall>i < length rows. process_row q tick (rows ! i) = Inr (rows' ! i))"
proof -
  from process_rows_Inr[OF assms] have m: "map (process_row q tick) rows = map Inr rows'" .
  then have len: "length rows' = length rows" by (metis length_map)
  have "\<forall>i < length rows. process_row q tick (rows ! i) = Inr (rows' ! i)"
  proof (intro allI impI)
    fix i assume i: "i < length rows"
    then have "process_row q tick (rows ! i) = map (process_row q tick) rows ! i" by simp
    also have "\<dots> = map Inr rows' ! i" by (simp only: m)
    also have "\<dots> = Inr (rows' ! i)" using i len by simp
    finally show "process_row q tick (rows ! i) = Inr (rows' ! i)" .
  qed
  with len show ?thesis by blast
qed

lemmas row_eval = process_row_def utc_fromtimestamp_ms_def ord2ymd_def days_before_month_def days_in_month_common_def
  days_in_month_def is_leap_def strftime_iso_def isoformat_def pad_def zfill_def format_z_def
  str_nat.simps digit_char_def Let_def

lemma process_row_in_range:
  assumes "key_t r = TMillis t"
    and "- 62135596800000 \<le> t" and "t \<le> 253402300799999"
  shows "\<exists>tv sy. process_row q tick r = Inr (r\<lparr>key_t := tv, key_symbol := sy\<rparr>)"
proof -
  from utc_fromtimestamp_ms_in_range(1)[OF assms(2,3)] obtain v
    where "utc_fromtimestamp_ms t = Inr v" by blast
  with assms(1) have "process_row q tick r =
      Inr (r\<lparr>key_t := (if timespan q \<notin> set [Some ''second'', Some ''minute'', Some ''hour'']
                        then TDate (dt_date v) else TText (strftime_iso v)),
             key_symbol := (if CHR '','' \<in> set (symbol q)
                            then Some (replace ''X:'' [] tick) else key_symbol r)\<rparr>)"
    by (simp add: process_row_def Let_def)
  then show ?thesis by blast
qed

lemma process_rows_total:
  "\<forall>r \<in> set rows. \<exists>x. process_row q tick r = Inr x \<Longrightarrow>
   \<exists>rows'. process_rows q tick rows = Inr rows'"
  by (induction rows) (auto split: sum.splits)

lemma process_rows_fails:
  assumes "r \<in> set rows" and "process_row q tick r = Inl e"
  shows "\<exists>e'. process_rows q tick rows = Inl e'"
proof (cases "process_rows q tick rows")
  case (Inl e')
  then show ?thesis by blast
next
  case (Inr rows')
  from assms(1) have "process_row q tick r \<in> set (map (process_row q tick) rows)" by simp
  with process_rows_Inr[OF Inr] assms(2) show ?thesis by auto
qed

text \<open>
  C4, as stated, fails: the rows of the pages do not always come back.  With two
  pages, the second holding a row whose epoch lies in year 10000, the task issues
  its two requests and the conversion of that row raises: the callback ends with the
  \<open>ValueError\<close> and the symbol contributes no row.
\<close>

theorem pagination_rows_lost:
  "callback replay (Some ''k'')
     \<lparr>symbol = ''BTCUSD'', start_date = Some \<lparr>year = 2023, month = 1, day = 1\<rparr>,
      end_date = Some \<lparr>year = 2023, month = 1, day = 3\<rparr>, interval = ''1d'',
      sort_order = ''asc'', limit = 1, multiplier = Some 1, timespan = Some ''day''\<rparr>
     ''https://api.polygon.io/v2/aggs/ticker/X:BTCUSD/range/1/day/2023-01-01/2023-01-03?&sort=asc&limit=1&apiKey=k''
     \<lparr>next_url = Some ''https://api.polygon.io/v2/aggs/next?cursor=a'',
      results = Some [\<lparr>key_t = TMillis 1672531200000, key_o = Some 1, key_h = Some 2,
                       key_l = Some 1, key_c = Some 2, key_v = None, key_vw = None,
                       key_n = Some 3, key_symbol = None\<rparr>]\<rparr>
     \<lparr>srv = [\<lparr>next_url = None,
              results = Some [\<lparr>key_t = TMillis 253402300800000, key_o = Some 2,
                               key_h = Some 3, key_l = Some 2, key_c = Some 3,
                               key_v = None, key_vw = None, key_n = Some 4,
                               key_symbol = None\<rparr>]\<rparr>],
      requests = [''https://api.polygon.io/v2/aggs/ticker/X:BTCUSD/range/1/day/2023-01-01/2023-01-03?&sort=asc&limit=1&apiKey=k''],
      warnings = []\<rparr>
   = Some (Inl ValueError,
           \<lparr>srv = [],
            requests = [''https://api.polygon.io/v2/aggs/ticker/X:BTCUSD/range/1/day/2023-01-01/2023-01-03?&sort=asc&limit=1&apiKey=k'',
                        ''https://api.polygon.io/v2/aggs/next?cursor=a&apiKey=k''],
            warnings = []\<rparr>) \<and>
   amake_requests replay
     (callback replay (Some ''k'')
        \<lparr>symbol = ''BTCUSD'', start_date = Some \<lparr>year = 2023, month = 1, day = 1\<rparr>,
         end_date = Some \<lparr>year = 2023, month = 1, day = 3\<rparr>, interval = ''1d'',
         sort_order = ''asc'', limit = 1, multiplier = Some 1, timespan = Some ''day''\<rparr>)
     [''https://api.polygon.io/v2/aggs/ticker/X:BTCUSD/range/1/day/2023-01-01/2023-01-03?&sort=asc&limit=1&apiKey=k'']
     \<lparr>srv = [\<lparr>next_url = Some ''https://api.polygon.io/v2/aggs/next?cursor=a'',
              results = Some [\<lparr>key_t = TMillis 1672531200000, key_o = Some 1, key_h = Some 2,
                               key_l = Some 1, key_c = Some 2, key_v = None, key_vw = None,
                               key_n = Some 3, key_symbol = None\<rparr>]\<rparr>,
             \<lparr>next_url = None,
              results = Some [\<lparr>key_t = TMillis 253402300800000, key_o = Some 2,
                               key_h = Some 3, key_l = Some 2, key_c = Some 3,
                               key_v = None, key_vw = None, key_n = Some 4,
                               key_symbol = None\<rparr>]\<rparr>],
      requests = [], warnings = []\<rparr>
   = Some ([],
           \<lparr>srv = [],
            requests = [''https://api.polygon.io/v2/aggs/ticker/X:BTCUSD/range/1/day/2023-01-01/2023-01-03?&sort=asc&limit=1&apiKey=k'',
                        ''https://api.polygon.io/v2/aggs/next?cursor=a&apiKey=k''],
            warnings = [TaskFailed ''https://api.polygon.io/v2/aggs/ticker/X:BTCUSD/range/1/day/2023-01-01/2023-01-03?&sort=asc&limit=1&apiKey=k'' ValueError]\<rparr>)"
proof -
  have second: "utc_fromtimestamp_ms 253402300800000 = Inl ValueError"
    by (simp add: utc_fromtimestamp_ms_def Let_def)
  have first: "utc_fromtimestamp_ms 1672531200000 =
      Inr \<lparr>dt_date = \<lparr>year = 2023, month = 1, day = 1\<rparr>, hour = 0, minute = 0,
           second = 0, microsecond = 0, utcoffset = Some 0\<rparr>"
    by (simp add: row_eval)
  show ?thesis
    by (simp add: callback_def url_part4_def url_parts_def url_supported_def url_segments_def
        replay_def fstr_def
        follow_pages.simps results_of_def process_row_def first second Let_def)
qed

text \<open>
  C4, amended.  When the vendor answers the first request of a symbol with \<open>p0\<close> and
  the continuations with \<open>ps\<close>, every response but the last carrying a continuation,
  the task ends; it has issued one request per response, the first URL and then each
  continuation with the key appended, and the callback has run the conversion over
  the rows of all the pages in page order.  When every row carries an epoch within
  the range of \<open>datetime\<close>, what is returned is these rows, one for one and in that
  order, each with its timestamp (and symbol) rewritten; when the conversion of a
  row fails, the callback raises and the symbol contributes no rows.
\<close>

theorem pagination_complete:
  assumes "fst (get (srv st) url) = p0"
    and "follows get (fstr api_key) (snd (get (srv st) url)) (next_url p0) ps"
    and "url_part4 url = Inr tick"
  shows "\<exists>st1 st'.
           callback get api_key q url p0
               (st\<lparr>srv := snd (get (srv st) url), requests := requests st @ [url]\<rparr>)
             = Some (process_rows q tick (concat (map results_of (p0 # ps))), st1) \<and>
           amake_requests get (callback get api_key q) [url] st
             = Some (case process_rows q tick (concat (map results_of (p0 # ps))) of
                       Inl e \<Rightarrow> [] | Inr rows' \<Rightarrow> rows', st') \<and>
           requests st' = requests st
             @ url # map (\<lambda>p. fstr (next_url p) @ ''&apiKey='' @ fstr api_key)
                       (butlast (p0 # ps)) \<and>
           length (requests st') = length (requests st) + length (p0 # ps) \<and>
           ((\<forall>r \<in> set (concat (map results_of (p0 # ps))).
                \<exists>t. key_t r = TMillis t \<and> - 62135596800000 \<le> t \<and> t \<le> 253402300799999) \<longrightarrow>
              (\<exists>rows'. process_rows q tick (concat (map results_of (p0 # ps))) = Inr rows' \<and>
                 length rows' = length (concat (map results_of (p0 # ps))) \<and>
                 (\<forall>i < length rows'.
                    process_row q tick (concat (map results_of (p0 # ps)) ! i) = Inr (rows' ! i) \<and>
                    (\<exists>tv sy. rows' ! i =
                       (concat (map results_of (p0 # ps)) ! i)\<lparr>key_t := tv, key_symbol := sy\<rparr>)))) \<and>
           ((\<exists>r \<in> set (concat (map results_of (p0 # ps))). \<exists>e. process_row q tick r = Inl e) \<longrightarrow>
              (\<exists>e. process_rows q tick (concat (map results_of (p0 # ps))) = Inl e))"
proof -
  define st1 where "st1 = st\<lparr>srv := snd (get (srv st) url), requests := requests st @ [url]\<rparr>"
  define fetched where "fetched = concat (map results_of (p0 # ps))"
  from assms(2) have "follows get (fstr api_key) (srv st1) (next_url p0) ps"
    by (simp add: st1_def)
  from follow_pages_follows[OF this, of "results_of p0"] obtain st2
    where run: "follow_pages get (fstr api_key) (next_url p0) (results_of p0) st1
                  = Some (fetched, st2)"
      and req: "requests st2 = requests st1
                  @ map (\<lambda>v. fstr v @ ''&apiKey='' @ fstr api_key)
                      (butlast (next_url p0 # map next_url ps))"
    by (auto simp: fetched_def)
  have urls: "map (\<lambda>v. fstr v @ ''&apiKey='' @ fstr api_key)
                (butlast (next_url p0 # map next_url ps))
              = map (\<lambda>p. fstr (next_url p) @ ''&apiKey='' @ fstr api_key) (butlast (p0 # ps))"
  proof -
    have "butlast (next_url p0 # map next_url ps) = map next_url (butlast (p0 # ps))"
      by (simp only: map_butlast list.map)
    then show ?thesis by (simp only: map_map o_def)
  qed
  define st3 where "st3 = (case process_rows q tick fetched of
                             Inl e \<Rightarrow> st2
                           | Inr rows' \<Rightarrow>
                               if rows' = []
                               then st2\<lparr>warnings := warnings st2
                                        @ [Warned (''Symbol Error: No data found for ''
                                                     @ replace ''X:'' [] tick)]\<rparr>
                               else st2)"
  define st4 where "st4 = (case process_rows q tick fetched of
                             Inl e \<Rightarrow> st3\<lparr>warnings := warnings st3 @ [TaskFailed url e]\<rparr>
                           | Inr rows' \<Rightarrow> st3)"
  have cb: "callback get api_key q url p0 st1 = Some (process_rows q tick fetched, st3)"
    using assms(3) run
    by (cases "process_rows q tick fetched") (simp_all add: callback_def st3_def)
  have res: "amake_requests get (callback get api_key q) [url] st
               = Some (case process_rows q tick fetched of
                         Inl e \<Rightarrow> [] | Inr rows' \<Rightarrow> rows', st4)"
    using cb assms(1)
    by (cases "process_rows q tick fetched") (simp_all add: st1_def st4_def Let_def)
  have req3: "requests st4 = requests st2"
    by (cases "process_rows q tick fetched") (simp_all add: st3_def st4_def)
  have reqs: "requests st4 = requests st
                 @ url # map (\<lambda>p. fstr (next_url p) @ ''&apiKey='' @ fstr api_key)
                           (butlast (p0 # ps))"
    unfolding req3 req urls by (simp add: st1_def)
  have len: "length (requests st4) = length (requests st) + length (p0 # ps)"
    unfolding reqs by simp
  have good: "(\<forall>r \<in> set fetched.
                \<exists>t. key_t r = TMillis t \<and> - 62135596800000 \<le> t \<and> t \<le> 253402300799999) \<longrightarrow>
              (\<exists>rows'. process_rows q tick fetched = Inr rows' \<and>
                 length rows' = length fetched \<and>
                 (\<forall>i < length rows'.
                    process_row q tick (fetched ! i) = Inr (rows' ! i) \<and>
                    (\<exists>tv sy. rows' ! i = (fetched ! i)\<lparr>key_t := tv, key_symbol := sy\<rparr>)))"
  proof
    assume a: "\<forall>r \<in> set fetched.
                \<exists>t. key_t r = TMillis t \<and> - 62135596800000 \<le> t \<and> t \<le> 253402300799999"
    then have each: "\<forall>r \<in> set fetched.
                \<exists>tv sy. process_row q tick r = Inr (r\<lparr>key_t := tv, key_symbol := sy\<rparr>)"
      using process_row_in_range[of _ _ q tick] by blast
    then have "\<forall>r \<in> set fetched. \<exists>x. process_row q tick r = Inr x" by blast
    from process_rows_total[OF this] obtain rows'
      where rows': "process_rows q tick fetched = Inr rows'" by blast
    from process_rows_rowwise[OF rows']
    have l: "length rows' = length fetched"
      and w: "\<forall>i < length fetched. process_row q tick (fetched ! i) = Inr (rows' ! i)"
      by blast+
    have "\<forall>i < length rows'.
            process_row q tick (fetched ! i) = Inr (rows' ! i) \<and>
            (\<exists>tv sy. rows' ! i = (fetched ! i)\<lparr>key_t := tv, key_symbol := sy\<rparr>)"
    proof (intro allI impI)
      fix i assume i: "i < length rows'"
      with l have m: "fetched ! i \<in> set fetched" by simp
      from i l w have p: "process_row q tick (fetched ! i) = Inr (rows' ! i)" by simp
      from each m obtain tv sy
        where "process_row q tick (fetched ! i) = Inr ((fetched ! i)\<lparr>key_t := tv, key_symbol := sy\<rparr>)"
        by blast
      with p have "rows' ! i = (fetched ! i)\<lparr>key_t := tv, key_symbol := sy\<rparr>" by simp
      with p show "process_row q tick (fetched ! i) = Inr (rows' ! i) \<and>
            (\<exists>tv sy. rows' ! i = (fetched ! i)\<lparr>key_t := tv, key_symbol := sy\<rparr>)" by blast
    qed
    with rows' l show "\<exists>rows'. process_rows q tick fetched = Inr rows' \<and>
                 length rows' = length fetched \<and>
                 (\<forall>i < length rows'.
                    process_row q tick (fetched ! i) = Inr (rows' ! i) \<and>
                    (\<exists>tv sy. rows' ! i = (fetched ! i)\<lparr>key_t := tv, key_symbol := sy\<rparr>))"
      by blast
  qed
  have bad: "(\<exists>r \<in> set fetched. \<exists>e. process_row q tick r = Inl e) \<longrightarrow>
              (\<exists>e. process_rows q tick fetched = Inl e)"
    using process_rows_fails[of _ fetched q tick] by blast
  from cb res reqs len good bad show ?thesis unfolding fetched_def st1_def by blast
qed

theorem pagination_complete_witness:
  "fst (replay
         (srv \<lparr>srv = [\<lparr>next_url = Some ''https://api.polygon.io/v2/aggs/next?cursor=a'',
                        results = Some [\<lparr>key_t = TMillis 1672531200000, key_o = Some 1,
                                         key_h = Some 2, key_l = Some 1, key_c = Some 2,
                                         key_v = None, key_vw = None, key_n = Some 3,
                                         key_symbol = None\<rparr>]\<rparr>,
                       \<lparr>next_url = None,
                        results = Some [\<lparr>key_t = TMillis 1672617600000, key_o = Some 2,
                                         key_h = Some 3, key_l = Some 2, key_c = Some 3,
                                         key_v = None, key_vw = None, key_n = Some 4,
                                         key_symbol = None\<rparr>]\<rparr>],
                requests = [], warnings = []\<rparr>)
         ''https://api.polygon.io/v2/aggs/ticker/X:BTCUSD/range/1/day/2023-01-01/2023-01-03?&sort=asc&limit=1&apiKey=k'')
     = \<lparr>next_url = Some ''https://api.polygon.io/v2/aggs/next?cursor=a'',
        results = Some [\<lparr>key_t = TMillis 1672531200000, key_o = Some 1,
                         key_h = Some 2, key_l = Some 1, key_c = Some 2,
                         key_v = None, key_vw = None, key_n = Some 3,
                         key_symbol = None\<rparr>]\<rparr> \<and>
   url_part4 ''https://api.polygon.io/v2/aggs/ticker/X:BTCUSD/range/1/day/2023-01-01/2023-01-03?&sort=asc&limit=1&apiKey=k''
     = Inr ''X:BTCUSD'' \<and>
   (\<exists>st'. amake_requests replay
            (callback replay (Some ''k'')
               \<lparr>symbol = ''BTCUSD'', start_date = Some \<lparr>year = 2023, month = 1, day = 1\<rparr>,
                end_date = Some \<lparr>year = 2023, month = 1, day = 3\<rparr>, interval = ''1d'',
                sort_order = ''asc'', limit = 1, multiplier = Some 1, timespan = Some ''day''\<rparr>)
            [''https://api.polygon.io/v2/aggs/ticker/X:BTCUSD/range/1/day/2023-01-01/2023-01-03?&sort=asc&limit=1&apiKey=k'']
            \<lparr>srv = [\<lparr>next_url = Some ''https://api.polygon.io/v2/aggs/next?cursor=a'',
                     results = Some [\<lparr>key_t = TMillis 1672531200000, key_o = Some 1,
                                      key_h = Some 2, key_l = Some 1, key_c = Some 2,
                                      key_v = None, key_vw = None, key_n = Some 3,
                                      key_symbol = None\<rparr>]\<rparr>,
                    \<lparr>next_url = None,
                     results = Some [\<lparr>key_t = TMillis 1672617600000, key_o = Some 2,
                                      key_h = Some 3, key_l = Some 2, key_c = Some 3,
                                      key_v = None, key_vw = None, key_n = Some 4,
                                      key_symbol = None\<rparr>]\<rparr>],
             requests = [], warnings = []\<rparr>
          = Some ([\<lparr>key_t = TDate \<lparr>year = 2023, month = 1, day = 1\<rparr>, key_o = Some 1,
                    key_h = Some 2, key_l = Some 1, key_c = Some 2,
                    key_v = None, key_vw = None, key_n = Some 3, key_symbol = None\<rparr>,
                   \<lparr>key_t = TDate \<lparr>year = 2023, month = 1, day = 2\<rparr>, key_o = Some 2,
                    key_h = Some 3, key_l = Some 2, key_c = Some 3,
                    key_v = None, key_vw = None, key_n = Some 4, key_symbol = None\<rparr>],
                  st') \<and>
          requests st' =
            [''https://api.polygon.io/v2/aggs/ticker/X:BTCUSD/range/1/day/2023-01-01/2023-01-03?&sort=asc&limit=1&apiKey=k'',
             ''https://api.polygon.io/v2/aggs/next?cursor=a&apiKey=k''])"
proof -
  let ?r1 = "\<lparr>key_t = TMillis 1672531200000, key_o = Some 1,
                                         key_h = Some 2, key_l = Some 1, key_c = Some 2,
                                         key_v = None, key_vw = None, key_n = Some 3,
                                         key_symbol = None\<rparr>"
  let ?r2 = "\<lparr>key_t = TMillis 1672617600000, key_o = Some 2,
                                         key_h = Some 3, key_l = Some 2, key_c = Some 3,
                                         key_v = None, key_vw = None, key_n = Some 4,
                                         key_symbol = None\<rparr>"
  let ?p0 = "\<lparr>next_url = Some ''https://api.polygon.io/v2/aggs/next?cursor=a'',
             results = Some [?r1]\<rparr>"
  let ?p1 = "\<lparr>next_url = None, results = Some [?r2]\<rparr>"
  let ?st = "\<lparr>srv = [?p0, ?p1], requests = [], warnings = []\<rparr>"
  let ?url = "''https://api.polygon.io/v2/aggs/ticker/X:BTCUSD/range/1/day/2023-01-01/2023-01-03?&sort=asc&limit=1&apiKey=k''"
  let ?q = "\<lparr>symbol = ''BTCUSD'', start_date = Some \<lparr>year = 2023, month = 1, day = 1\<rparr>,
                end_date = Some \<lparr>year = 2023, month = 1, day = 3\<rparr>, interval = ''1d'',
                sort_order = ''asc'', limit = 1, multiplier = Some 1, timespan = Some ''day''\<rparr>"
  let ?out = "[\<lparr>key_t = TDate \<lparr>year = 2023, month = 1, day = 1\<rparr>, key_o = Some 1,
                    key_h = Some 2, key_l = Some 1, key_c = Some 2,
                    key_v = None, key_vw = None, key_n = Some 3, key_symbol = None\<rparr>,
                   \<lparr>key_t = TDate \<lparr>year = 2023, month = 1, day = 2\<rparr>, key_o = Some 2,
                    key_h = Some 3, key_l = Some 2, key_c = Some 3,
                    key_v = None, key_vw = None, key_n = Some 4, key_symbol = None\<rparr>]"
  have h1: "fst (replay (srv ?st) ?url) = ?p0" by (simp add: replay_def)
  have h2: "follows replay (fstr (Some ''k'')) (snd (replay (srv ?st) ?url)) (next_url ?p0) [?p1]"
    by (simp add: replay_def fstr_def)
  have h3: "url_part4 ?url = Inr ''X:BTCUSD''"
    by (simp add: url_part4_def url_parts_def url_supported_def url_segments_def)
  have rows: "process_rows ?q ''X:BTCUSD'' (concat (map results_of (?p0 # [?p1]))) = Inr ?out"
    by (simp add: results_of_def row_eval)
  from pagination_complete[of replay ?st ?url ?p0 "Some ''k''" "[?p1]" "''X:BTCUSD''" ?q,
      OF h1 h2 h3]
  obtain st' where
    a: "amake_requests replay (callback replay (Some ''k'') ?q) [?url] ?st
          = Some (case process_rows ?q ''X:BTCUSD'' (concat (map results_of (?p0 # [?p1]))) of
                    Inl e \<Rightarrow> [] | Inr rows' \<Rightarrow> rows', st')"
    and b: "requests st' = requests ?st
                 @ ?url # map (\<lambda>p. fstr (next_url p) @ ''&apiKey='' @ fstr (Some ''k''))
                           (butlast (?p0 # [?p1]))"
    by blast
  from b have b': "requests st' = [?url, ''https://api.polygon.io/v2/aggs/next?cursor=a&apiKey=k'']"
    by (simp add: fstr_def)
  from a have a': "amake_requests replay (callback replay (Some ''k'') ?q) [?url] ?st
          = Some (?out, st')"
    unfolding rows by simp
  from h1 h3 a' b' show ?thesis by blast
qed

subsection \<open>Credentials\<close>

lemma follow_pages_done:
  "nxt = None \<or> nxt = Some [] \<Longrightarrow> follow_pages get key nxt rows st = Some (rows, st)"
  by (subst follow_pages.simps) auto

lemma follow_pages_requests:
  assumes "follow_pages get key nxt rows st = Some y"
  shows "\<exists>more. requests (snd y) = requests st @ more"
proof (rule follow_pages.raw_induct[where P = "\<lambda>g k n r s z. \<exists>more. requests (snd z) = requests s @ more",
      OF _ assms], goal_cases)
  case (1 fp get key nxt rows st y)
  show ?case
  proof (cases nxt)
    case None
    with 1(2) show ?thesis by auto
  next
    case (Some u)
    show ?thesis
    proof (cases "u = []")
      case True
      with Some 1(2) show ?thesis by auto
    next
      case False
      define url where "url = u @ ''&apiKey='' @ key"
      define st1 where "st1 = st\<lparr>srv := snd (get (srv st) url), requests := requests st @ [url]\<rparr>"
      from 1(2) Some False
      have "fp get key (next_url (fst (get (srv st) url)))
              (rows @ results_of (fst (get (srv st) url))) st1 = Some y"
        by (simp add: Let_def url_def st1_def)
      then have "\<exists>more. requests (snd y) = requests st1 @ more" by (rule 1(1))
      then show ?thesis by (auto simp: st1_def)
    qed
  qed
qed

text \<open>
  A vendor whose pagination ends: some measure of its state decreases whenever it
  answers with a continuation.  The loop then ends from every state.
\<close>

lemma follow_pages_terminates:
  fixes f :: "'s \<Rightarrow> nat"
  assumes prog: "\<forall>s u tok. next_url (fst (get s u)) = Some tok \<longrightarrow> tok \<noteq> []
                   \<longrightarrow> f (snd (get s u)) < f s"
  shows "\<exists>y. follow_pages get key nxt rows st = Some y"
proof (induction "f (srv st)" arbitrary: nxt rows st rule: less_induct)
  case less
  show ?case
  proof (cases "nxt = None \<or> nxt = Some []")
    case True
    from follow_pages_done[OF this] show ?thesis by blast
  next
    case False
    then obtain u where u: "nxt = Some u" "u \<noteq> []" by (cases nxt) auto
    define url where "url = u @ ''&apiKey='' @ key"
    define data where "data = fst (get (srv st) url)"
    define st1 where "st1 = st\<lparr>srv := snd (get (srv st) url), requests := requests st @ [url]\<rparr>"
    have step: "follow_pages get key nxt rows st
                  = follow_pages get key (next_url data) (rows @ results_of data) st1"
      by (subst follow_pages.simps) (simp add: u url_def data_def st1_def Let_def)
    show ?thesis
    proof (cases "next_url data = None \<or> next_url data = Some []")
      case True
      have "follow_pages get key (next_url data) (rows @ results_of data) st1
              = Some (rows @ results_of data, st1)"
        by (rule follow_pages_done[OF True])
      with step show ?thesis by simp
    next
      case False
      then obtain tok where tok: "next_url data = Some tok" "tok \<noteq> []"
        by (cases "next_url data") auto
      with prog have "f (snd (get (srv st) url)) < f (srv st)" unfolding data_def by blast
      then have "f (srv st1) < f (srv st)" by (simp add: st1_def)
      from less[OF this] step show ?thesis by simp
    qed
  qed
qed

lemma callback_runs:
  fixes f :: "'s \<Rightarrow> nat"
  assumes prog: "\<forall>s u tok. next_url (fst (get s u)) = Some tok \<longrightarrow> tok \<noteq> []
                   \<longrightarrow> f (snd (get s u)) < f s"
  shows "\<exists>res st'. callback get k q url data st = Some (res, st') \<and>
           (\<exists>more. requests st' = requests st @ more)"
proof (cases "url_part4 url")
  case (Inl e)
  then show ?thesis by (simp add: callback_def)
next
  case (Inr tick)
  from follow_pages_terminates[OF prog, of "fstr k" "next_url data" "results_of data" st]
  obtain rows st2
    where fp: "follow_pages get (fstr k) (next_url data) (results_of data) st = Some (rows, st2)"
    by auto
  from follow_pages_requests[OF fp] obtain more where m: "requests st2 = requests st @ more"
    by auto
  show ?thesis
  proof (cases "process_rows q tick rows")
    case (Inl e)
    with Inr fp m show ?thesis by (simp add: callback_def)
  next
    case r: (Inr rows')
    with Inr fp m show ?thesis by (simp add: callback_def)
  qed
qed

lemma amake_requests_runs:
  fixes f :: "'s \<Rightarrow> nat"
  assumes prog: "\<forall>s u tok. next_url (fst (get s u)) = Some tok \<longrightarrow> tok \<noteq> []
                   \<longrightarrow> f (snd (get s u)) < f s"
  shows "\<exists>rows st'. amake_requests get (callback get k q) urls st = Some (rows, st') \<and>
           (\<exists>more. requests st' = requests st @ more) \<and>
           set urls \<subseteq> set (requests st') \<and>
           (urls \<noteq> [] \<longrightarrow> (\<exists>rest. requests st' = requests st @ hd urls # rest))"
proof (induction urls arbitrary: st)
  case Nil
  then show ?case by simp
next
  case (Cons url urls)
  define st1 where "st1 = st\<lparr>srv := snd (get (srv st) url), requests := requests st @ [url]\<rparr>"
  from callback_runs[OF prog, of k q url "fst (get (srv st) url)" st1] obtain res st2 m1
    where cb: "callback get k q url (fst (get (srv st) url)) st1 = Some (res, st2)"
      and m1: "requests st2 = requests st1 @ m1" by blast
  define st2' where "st2' = (case res of
                               Inl e \<Rightarrow> st2\<lparr>warnings := warnings st2 @ [TaskFailed url e]\<rparr>
                             | Inr rows \<Rightarrow> st2)"
  define got where "got = (case res of Inl e \<Rightarrow> [] | Inr rows \<Rightarrow> rows)"
  have r2: "requests st2' = requests st @ url # m1"
    using m1 by (cases res) (simp_all add: st2'_def st1_def)
  from Cons.IH[of st2'] obtain rest st3 m2
    where run: "amake_requests get (callback get k q) urls st2' = Some (rest, st3)"
      and m2: "requests st3 = requests st2' @ m2"
      and sub: "set urls \<subseteq> set (requests st3)" by blast
  have "amake_requests get (callback get k q) (url # urls) st = Some (got @ rest, st3)"
    using cb run
    by (cases res) (simp_all add: st1_def st2'_def got_def Let_def)
  moreover have "requests st3 = requests st @ url # (m1 @ m2)" using r2 m2 by simp
  ultimately show ?case using sub by auto
qed

lemma split_on_nonempty: "split_on c s \<noteq> []"
  by (induction s) (auto split: list.splits)

text \<open>
  The replayed vendor makes progress: every response that names a further page
  leaves fewer pages to serve.
\<close>

lemma replay_progress:
  "\<forall>s u tok. next_url (fst (replay s u)) = Some tok \<longrightarrow> tok \<noteq> []
      \<longrightarrow> length (snd (replay s u)) < length s"
  by (auto simp: replay_def split: list.splits)

text \<open>
  C5, as stated, fails: without credentials the extraction is carried out, with an
  empty key in the URL, and returns the vendor's rows.
\<close>

theorem aextract_data_without_credentials:
  "aextract_data replay
     \<lparr>symbol = ''BTCUSD'', start_date = Some \<lparr>year = 2023, month = 1, day = 1\<rparr>,
      end_date = Some \<lparr>year = 2023, month = 1, day = 3\<rparr>, interval = ''1d'',
      sort_order = ''asc'', limit = 1, multiplier = Some 1, timespan = Some ''day''\<rparr>
     None
     \<lparr>srv = [\<lparr>next_url = None,
              results = Some [\<lparr>key_t = TMillis 1672531200000, key_o = Some 1,
                               key_h = Some 2, key_l = Some 1, key_c = Some 2,
                               key_v = None, key_vw = None, key_n = Some 3,
                               key_symbol = None\<rparr>]\<rparr>],
      requests = [], warnings = []\<rparr>
   = Some ([\<lparr>key_t = TDate \<lparr>year = 2023, month = 1, day = 1\<rparr>, key_o = Some 1,
             key_h = Some 2, key_l = Some 1, key_c = Some 2,
             key_v = None, key_vw = None, key_n = Some 3, key_symbol = None\<rparr>],
           \<lparr>srv = [],
            requests = [''https://api.polygon.io/v2/aggs/ticker/X:BTCUSD/range/1/day/2023-01-01/2023-01-03?&sort=asc&limit=1&apiKey=''],
            warnings = []\<rparr>)"
  by (simp add: aextract_data_def get_api_key_def request_url_def fstr_def str_int_def
      upper_def upper_char_def callback_def url_part4_def url_parts_def url_supported_def
      url_segments_def replay_def
      follow_pages_done results_of_def row_eval)

text \<open>
  C5, amended.  A missing credential is not an error of the extraction.  The key is
  the empty string when there is no mapping or an empty one, and \<open>None\<close> when the
  mapping lacks the entry.  With that key in every URL, and a vendor whose
  pagination ends, the extraction returns rows: it has issued the request of every
  symbol, the first symbol's first.
\<close>

theorem missing_credential_not_checked:
  fixes f :: "'s \<Rightarrow> nat"
  assumes "credentials = None \<or>
           (\<exists>c. credentials = Some c \<and> map_of c ''polygon_api_key'' = None)"
    and "\<forall>s u tok. next_url (fst (get s u)) = Some tok \<longrightarrow> tok \<noteq> []
           \<longrightarrow> f (snd (get s u)) < f s"
  shows "get_api_key credentials =
           (if credentials = None \<or> credentials = Some [] then Some [] else None) \<and>
         (\<exists>rows st'. aextract_data get q credentials st = Some (rows, st') \<and>
            (\<exists>rest. requests st' = requests st
               @ request_url q (get_api_key credentials) (hd (split_on CHR '','' (symbol q)))
               # rest) \<and>
            (\<forall>tick \<in> set (split_on CHR '','' (symbol q)).
               request_url q (get_api_key credentials) tick \<in> set (requests st') \<and>
               (\<exists>body. request_url q (get_api_key credentials) tick
                  = body @ ''&apiKey='' @ (if credentials = None \<or> credentials = Some []
                                            then [] else ''None''))))"
proof
  from assms(1) show key: "get_api_key credentials =
           (if credentials = None \<or> credentials = Some [] then Some [] else None)"
    by (auto simp: get_api_key_def split: if_splits)
  define k where "k = get_api_key credentials"
  define urls where "urls = map (request_url q k) (split_on CHR '','' (symbol q))"
  obtain x xs where sp: "split_on CHR '','' (symbol q) = x # xs"
    using split_on_nonempty[of "CHR '',''" "symbol q"]
    by (cases "split_on CHR '','' (symbol q)") auto
  from amake_requests_runs[OF assms(2), of k q urls st] obtain rows st'
    where run: "amake_requests get (callback get k q) urls st = Some (rows, st')"
      and sub: "set urls \<subseteq> set (requests st')"
      and first: "urls \<noteq> [] \<longrightarrow> (\<exists>rest. requests st' = requests st @ hd urls # rest)"
    by blast
  have a: "aextract_data get q credentials st = Some (rows, st')"
    using run by (simp add: aextract_data_def Let_def k_def urls_def)
  have b: "\<exists>rest. requests st' = requests st
               @ request_url q k (hd (split_on CHR '','' (symbol q))) # rest"
    using first sp by (simp add: urls_def)
  have fk: "fstr k = (if credentials = None \<or> credentials = Some [] then [] else ''None'')"
    using key by (simp add: k_def fstr_def)
  have c: "\<forall>tick \<in> set (split_on CHR '','' (symbol q)).
               request_url q k tick \<in> set (requests st') \<and>
               (\<exists>body. request_url q k tick
                  = body @ ''&apiKey='' @ (if credentials = None \<or> credentials = Some []
                                            then [] else ''None''))"
  proof
    fix tick assume t: "tick \<in> set (split_on CHR '','' (symbol q))"
    then have "request_url q k tick \<in> set urls" by (simp add: urls_def)
    with sub have i: "request_url q k tick \<in> set (requests st')" by blast
    have "request_url q k tick =
            (''https://api.polygon.io/v2/aggs/ticker/'' @ ''X:'' @ upper tick
              @ ''/range/'' @ fstr (map_option str_int (multiplier q))
              @ ''/'' @ fstr (timespan q)
              @ ''/'' @ fstr (map_option isoformat (start_date q))
              @ ''/'' @ fstr (map_option isoformat (end_date q))
              @ ''?'' @ ''&sort='' @ sort_order q @ ''&limit='' @ str_int (limit q))
             @ ''&apiKey='' @ fstr k"
      by (simp add: request_url_def)
    then have "\<exists>body. request_url q k tick = body @ ''&apiKey='' @ fstr k" by blast
    with i fk show "request_url q k tick \<in> set (requests st') \<and>
               (\<exists>body. request_url q k tick
                  = body @ ''&apiKey='' @ (if credentials = None \<or> credentials = Some []
                                            then [] else ''None''))" by simp
  qed
  from a b c show "\<exists>rows st'. aextract_data get q credentials st = Some (rows, st') \<and>
            (\<exists>rest. requests st' = requests st
               @ request_url q (get_api_key credentials) (hd (split_on CHR '','' (symbol q)))
               # rest) \<and>
            (\<forall>tick \<in> set (split_on CHR '','' (symbol q)).
               request_url q (get_api_key credentials) tick \<in> set (requests st') \<and>
               (\<exists>body. request_url q (get_api_key credentials) tick
                  = body @ ''&apiKey='' @ (if credentials = None \<or> credentials = Some []
                                            then [] else ''None'')))"
    unfolding k_def by blast
qed

theorem missing_credential_not_checked_witness:
  "map_of [(''fmp_api_key'', ''abc'')] ''polygon_api_key'' = None \<and>
   get_api_key (Some [(''fmp_api_key'', ''abc'')]) = None \<and>
   aextract_data replay
     \<lparr>symbol = ''BTCUSD'', start_date = Some \<lparr>year = 2023, month = 1, day = 1\<rparr>,
      end_date = Some \<lparr>year = 2023, month = 1, day = 3\<rparr>, interval = ''1d'',
      sort_order = ''asc'', limit = 1, multiplier = Some 1, timespan = Some ''day''\<rparr>
     (Some [(''fmp_api_key'', ''abc'')])
     \<lparr>srv = [\<lparr>next_url = None, results = None\<rparr>], requests = [], warnings = []\<rparr>
   = Some ([],
           \<lparr>srv = [],
            requests = [''https://api.polygon.io/v2/aggs/ticker/X:BTCUSD/range/1/day/2023-01-01/2023-01-03?&sort=asc&limit=1&apiKey=None''],
            warnings = [Warned ''Symbol Error: No data found for BTCUSD'']\<rparr>) \<and>
   (\<exists>rows st'. aextract_data replay
       \<lparr>symbol = ''BTCUSD'', start_date = Some \<lparr>year = 2023, month = 1, day = 1\<rparr>,
        end_date = Some \<lparr>year = 2023, month = 1, day = 3\<rparr>, interval = ''1d'',
        sort_order = ''asc'', limit = 1, multiplier = Some 1, timespan = Some ''day''\<rparr>
       (Some [(''fmp_api_key'', ''abc'')])
       \<lparr>srv = [\<lparr>next_url = None, results = None\<rparr>], requests = [], warnings = []\<rparr>
      = Some (rows, st') \<and>
      request_url
        \<lparr>symbol = ''BTCUSD'', start_date = Some \<lparr>year = 2023, month = 1, day = 1\<rparr>,
         end_date = Some \<lparr>year = 2023, month = 1, day = 3\<rparr>, interval = ''1d'',
         sort_order = ''asc'', limit = 1, multiplier = Some 1, timespan = Some ''day''\<rparr>
        (get_api_key (Some [(''fmp_api_key'', ''abc'')])) ''BTCUSD''
      \<in> set (requests st'))"
proof -
  let ?c = "Some [(''fmp_api_key'', ''abc'')]"
  let ?q = "\<lparr>symbol = ''BTCUSD'', start_date = Some \<lparr>year = 2023, month = 1, day = 1\<rparr>,
      end_date = Some \<lparr>year = 2023, month = 1, day = 3\<rparr>, interval = ''1d'',
      sort_order = ''asc'', limit = 1, multiplier = Some 1, timespan = Some ''day''\<rparr>"
  let ?st = "\<lparr>srv = [\<lparr>next_url = None, results = None\<rparr>], requests = [], warnings = []\<rparr>"
  let ?st' = "\<lparr>srv = ([]::page list),
            requests = [''https://api.polygon.io/v2/aggs/ticker/X:BTCUSD/range/1/day/2023-01-01/2023-01-03?&sort=asc&limit=1&apiKey=None''],
            warnings = [Warned ''Symbol Error: No data found for BTCUSD'']\<rparr>"
  have m: "map_of [(''fmp_api_key'', ''abc'')] ''polygon_api_key'' = None" by simp
  then have h: "?c = None \<or> (\<exists>c. ?c = Some c \<and> map_of c ''polygon_api_key'' = None)" by simp
  note p = replay_progress
  have run: "aextract_data replay ?q ?c ?st = Some ([], ?st')"
    by (simp add: aextract_data_def get_api_key_def request_url_def fstr_def str_int_def
      upper_def upper_char_def callback_def url_part4_def url_parts_def url_supported_def
      url_segments_def replay_def
      follow_pages_done results_of_def replace_def row_eval)
  note inst = missing_credential_not_checked[OF h p, of ?q ?st]
  from inst have k: "get_api_key ?c = None" by simp
  from inst obtain rows st'
    where r: "aextract_data replay ?q ?c ?st = Some (rows, st')"
      and all: "\<forall>tick \<in> set (split_on CHR '','' (symbol ?q)).
               request_url ?q (get_api_key ?c) tick \<in> set (requests st')"
    by blast
  have "''BTCUSD'' \<in> set (split_on CHR '','' (symbol ?q))" by simp
  with all have "request_url ?q (get_api_key ?c) ''BTCUSD'' \<in> set (requests st')" by blast
  with r have e: "\<exists>rows st'. aextract_data replay ?q ?c ?st = Some (rows, st') \<and>
      request_url ?q (get_api_key ?c) ''BTCUSD'' \<in> set (requests st')" by blast
  from m k run e show ?thesis by blast
qed

end
